theory Spec2Isabelle
  imports Main "HOL-Library.Word"
begin

unbundle bit_operations_syntax

section \<open>Strings and paths\<close>

text \<open>
  \<^verbatim>\<open>strings.Split(s, sep)\<close> for a one-byte separator: the pieces of \<open>s\<close> between the
  occurrences of \<open>sep\<close>. The result is never empty: a string without the separator
  gives the one-element slice holding the string itself.
\<close>

fun strings_Split :: "string \<Rightarrow> char \<Rightarrow> string list" where
  "strings_Split [] sep = [[]]"
| "strings_Split (c # cs) sep =
     (if c = sep then [] # strings_Split cs sep
      else (case strings_Split cs sep of
              [] \<Rightarrow> [[c]]
            | x # xs \<Rightarrow> (c # x) # xs))"

text \<open>\<^verbatim>\<open>strings.Join(elems, sep)\<close>.\<close>

fun strings_Join :: "string list \<Rightarrow> string \<Rightarrow> string" where
  "strings_Join [] sep = []"
| "strings_Join [x] sep = x"
| "strings_Join (x # y # ys) sep = x @ sep @ strings_Join (y # ys) sep"

text \<open>
  The element loop of \<^verbatim>\<open>filepath.Clean\<close> on Unix, element by element: empty elements
  and \<open>.\<close> are dropped; \<open>..\<close> removes the last real element when there is one, is
  kept at the front of an unrooted path and is dropped at the root.
\<close>

fun clean_elems :: "bool \<Rightarrow> string list \<Rightarrow> string list \<Rightarrow> string list" where
  "clean_elems rooted out [] = out"
| "clean_elems rooted out (e # es) =
     (if e = [] \<or> e = ''.'' then clean_elems rooted out es
      else if e = ''..'' then
        (if out \<noteq> [] \<and> last out \<noteq> ''..'' then clean_elems rooted (butlast out) es
         else if \<not> rooted then clean_elems rooted (out @ [''..'']) es
         else clean_elems rooted out es)
      else clean_elems rooted (out @ [e]) es)"

definition filepath_Clean :: "string \<Rightarrow> string" where
  "filepath_Clean path =
     (if path = [] then ''.''
      else let rooted = (hd path = CHR ''/'');
               out = clean_elems rooted [] (strings_Split path (CHR ''/''))
           in if rooted then ''/'' @ strings_Join out ''/''
              else if out = [] then ''.''
              else strings_Join out ''/'')"

text \<open>\<^verbatim>\<open>filepath.Join\<close>: leading empty elements are skipped, the rest is joined and cleaned.\<close>

definition filepath_Join :: "string list \<Rightarrow> string" where
  "filepath_Join elem =
     (case dropWhile (\<lambda>e. e = []) elem of
        [] \<Rightarrow> []
      | es \<Rightarrow> filepath_Clean (strings_Join es ''/''))"

text \<open>\<^verbatim>\<open>filepath.Dir\<close>: the path up to and including its last separator, cleaned.\<close>

definition filepath_Dir :: "string \<Rightarrow> string" where
  "filepath_Dir path = filepath_Clean (rev (dropWhile (\<lambda>c. c \<noteq> CHR ''/'') (rev path)))"

text \<open>\<^verbatim>\<open>filepath.Base\<close>: the last element, after trailing separators are stripped.\<close>

definition filepath_Base :: "string \<Rightarrow> string" where
  "filepath_Base path =
     (if path = [] then ''.''
      else let stripped = dropWhile (\<lambda>c. c = CHR ''/'') (rev path);
               b = rev (takeWhile (\<lambda>c. c \<noteq> CHR ''/'') stripped)
           in if b = [] then ''/'' else b)"

section \<open>The child's standard input: \<^verbatim>\<open>nullReader\<close>\<close>

text \<open>
  \<^verbatim>\<open>func (nullReader) Read(p []byte) (n int, err error) { return len(p), nil }\<close>

  The model returns the buffer as the call leaves it, the count \<open>n\<close> and the error
  (\<open>None\<close> for \<^verbatim>\<open>nil\<close>). The source never writes to \<open>p\<close> and never returns
  \<^verbatim>\<open>io.EOF\<close>.
\<close>

datatype io_error = EOF | ErrOther

definition nullReader_Read :: "8 word list \<Rightarrow> 8 word list \<times> nat \<times> io_error option" where
  "nullReader_Read p = (p, length p, None)"

text \<open>
  The loop that feeds a reader into the child's input pipe (\<^verbatim>\<open>io.Copy\<close>, as
  \<^verbatim>\<open>os/exec\<close> runs it for a \<^verbatim>\<open>Stdin\<close> that is not a file): read into a buffer, pass on
  the \<open>n\<close> bytes read, stop at the first error, where \<^verbatim>\<open>io.EOF\<close> ends the copy
  normally. The loop need not end, so it runs on fuel: \<open>None\<close> means that the copy
  is still running after \<open>fuel\<close> reads; the second component counts the bytes
  delivered so far.
\<close>

fun stdin_copy :: "(8 word list \<Rightarrow> 8 word list \<times> nat \<times> io_error option) \<Rightarrow> 8 word list
    \<Rightarrow> nat \<Rightarrow> nat \<Rightarrow> io_error option \<times> nat" where
  "stdin_copy rd buf 0 written = (None, written)"
| "stdin_copy rd buf (Suc fuel) written =
     (case rd buf of
        (buf', n, None) \<Rightarrow> stdin_copy rd buf' fuel (written + n)
      | (buf', n, Some e) \<Rightarrow> (Some e, written + n))"

section \<open>Errors and results\<close>

text \<open>
  A Go \<^verbatim>\<open>error\<close> value, by what produced it. \<open>ExitError c\<close> is
  \<^verbatim>\<open>*exec.ExitError\<close> with \<^verbatim>\<open>ExitCode() = c\<close>; the others are not exit-status
  errors.
\<close>

datatype error =
    ENOENT | ENOTDIR | EISDIR | EEXIST
  | UrlError
  | NetError
  | StatusError string nat
  | JsonSyntaxError
  | UnmarshalTypeError
  | GzipError
  | TarError
  | ExitError int
  | StartError

datatype panic = IndexOutOfRange | PanicErr error

text \<open>
  What a function of the source does: it returns a value with a \<^verbatim>\<open>nil\<close> error,
  returns a non-\<^verbatim>\<open>nil\<close> error, or panics at run time.
\<close>

datatype 'a result = Ok 'a | Err error | Panic panic

text \<open>Indexing a slice, \<^verbatim>\<open>xs[i]\<close>: out of range is a run-time panic.\<close>

definition index :: "'a list \<Rightarrow> nat \<Rightarrow> panic + 'a" where
  "index xs i = (if i < length xs then Inr (xs ! i) else Inl IndexOutOfRange)"

section \<open>The file system\<close>

text \<open>
  A file system maps a path, the list of its elements from the root, to a directory with
  its permission bits or to a regular file with its permission bits and its bytes. The
  root (the empty path) is always a directory. There are no symbolic links: the extractor
  creates none, and nothing else writes into the fresh root. The tool runs as the
  superuser (a change of root needs it), so no operation fails for lack of permission.
  Only the nine permission bits of a mode are tracked; the octal modes of the source are
  written in hexadecimal: 0755 is \<open>0x1ED\<close>, 0777 is \<open>0x1FF\<close>, 0666 is \<open>0x1B6\<close>,
  0700 is \<open>0x1C0\<close>.
\<close>

type_synonym path = "string list"
type_synonym FileMode = "32 word"

datatype node = DirNode FileMode | FileNode FileMode string

type_synonym filesys = "path \<Rightarrow> node option"

definition lookup :: "filesys \<Rightarrow> path \<Rightarrow> node option" where
  "lookup fs p = (if p = [] then Some (DirNode 0x1ED) else fs p)"

text \<open>\<^verbatim>\<open>FileMode.Perm()\<close>.\<close>

definition Perm :: "FileMode \<Rightarrow> FileMode" where
  "Perm m = m AND 0x1FF"

text \<open>
  The path the kernel resolves a name to: a relative name starts at the working
  directory; without symbolic links the elements \<open>.\<close> and \<open>..\<close> resolve as
  \<^verbatim>\<open>filepath.Clean\<close> resolves them in a rooted path.
\<close>

definition resolve :: "path \<Rightarrow> string \<Rightarrow> path" where
  "resolve cwd name =
     (if name \<noteq> [] \<and> hd name = CHR ''/''
      then clean_elems True [] (strings_Split name (CHR ''/''))
      else clean_elems True [] (cwd @ strings_Split name (CHR ''/'')))"

text \<open>\<^verbatim>\<open>os.Stat\<close>: the node at the path, or an error when there is none.\<close>

definition os_Stat :: "filesys \<Rightarrow> path \<Rightarrow> error + node" where
  "os_Stat fs p = (case lookup fs p of None \<Rightarrow> Inl ENOENT | Some n \<Rightarrow> Inr n)"

text \<open>
  \<^verbatim>\<open>os.MkdirAll(path, perm)\<close>, on the reversed path: an existing directory is left as
  it is, an existing file is \<^verbatim>\<open>ENOTDIR\<close>; otherwise the parent is made in the same
  way and then the directory itself, with \<open>perm\<close> less the umask.
\<close>

fun MkdirAll_rev :: "FileMode \<Rightarrow> filesys \<Rightarrow> path \<Rightarrow> FileMode \<Rightarrow> error + filesys" where
  "MkdirAll_rev um fs [] perm = Inr fs"
| "MkdirAll_rev um fs (e # rp) perm =
     (case fs (rev (e # rp)) of
        Some (DirNode m) \<Rightarrow> Inr fs
      | Some (FileNode m c) \<Rightarrow> Inl ENOTDIR
      | None \<Rightarrow>
          (case MkdirAll_rev um fs rp perm of
             Inl err \<Rightarrow> Inl err
           | Inr fs' \<Rightarrow> Inr (fs'(rev (e # rp) \<mapsto> DirNode (Perm perm AND NOT um)))))"

definition os_MkdirAll :: "FileMode \<Rightarrow> filesys \<Rightarrow> path \<Rightarrow> FileMode \<Rightarrow> error + filesys" where
  "os_MkdirAll um fs p perm = MkdirAll_rev um fs (rev p) perm"

text \<open>
  \<^verbatim>\<open>os.OpenFile(name, flag, perm)\<close> for the flags the source uses: \<open>creat\<close> is
  \<^verbatim>\<open>O_CREATE\<close>, \<open>trunc\<close> is \<^verbatim>\<open>O_TRUNC\<close>, \<open>wr\<close> says that the file is opened for
  writing. An existing file keeps its mode, and keeps its bytes unless \<open>trunc\<close> is
  set; \<open>perm\<close> (less the umask) is the mode of a file that the call creates. The
  result is the file system after the call; the open file is the one at the path.
\<close>

definition os_OpenFile ::
    "FileMode \<Rightarrow> filesys \<Rightarrow> path \<Rightarrow> bool \<Rightarrow> bool \<Rightarrow> bool \<Rightarrow> FileMode \<Rightarrow> error + filesys" where
  "os_OpenFile um fs p creat trunc wr perm =
     (case lookup fs p of
        Some (DirNode m) \<Rightarrow> if wr then Inl EISDIR else Inr fs
      | Some (FileNode m c) \<Rightarrow> Inr (if trunc then fs(p \<mapsto> FileNode m []) else fs)
      | None \<Rightarrow>
          if \<not> creat then Inl ENOENT
          else (case lookup fs (butlast p) of
                  Some (DirNode m) \<Rightarrow> Inr (fs(p \<mapsto> FileNode (Perm perm AND NOT um) []))
                | Some (FileNode m c) \<Rightarrow> Inl ENOTDIR
                | None \<Rightarrow> Inl ENOENT))"

text \<open>
  Writing \<open>data\<close> to a file just opened, from offset 0: the bytes replace the first
  \<open>length data\<close> bytes of the file, and what the file holds beyond them stays.
\<close>

definition write_from_start :: "string \<Rightarrow> string \<Rightarrow> string" where
  "write_from_start old data = data @ drop (length data) old"

definition write_file :: "filesys \<Rightarrow> path \<Rightarrow> string \<Rightarrow> filesys" where
  "write_file fs p data =
     (case fs p of
        Some (FileNode m old) \<Rightarrow> fs(p \<mapsto> FileNode m (write_from_start old data))
      | _ \<Rightarrow> fs)"

text \<open>\<^verbatim>\<open>os.Chmod\<close>.\<close>

definition os_Chmod :: "filesys \<Rightarrow> path \<Rightarrow> FileMode \<Rightarrow> error + filesys" where
  "os_Chmod fs p mode =
     (case lookup fs p of
        None \<Rightarrow> Inl ENOENT
      | Some (DirNode m) \<Rightarrow> Inr (if p = [] then fs else fs(p \<mapsto> DirNode (Perm mode)))
      | Some (FileNode m c) \<Rightarrow> Inr (fs(p \<mapsto> FileNode (Perm mode) c)))"

text \<open>\<^verbatim>\<open>os.RemoveAll\<close>: the path and everything below it is gone.\<close>

definition is_prefix :: "path \<Rightarrow> path \<Rightarrow> bool" where
  "is_prefix p q = (take (length p) q = p)"

definition os_RemoveAll :: "filesys \<Rightarrow> path \<Rightarrow> filesys" where
  "os_RemoveAll fs p = (\<lambda>q. if is_prefix p q then None else fs q)"

text \<open>
  \<^verbatim>\<open>func copy(src, dst string) error\<close>: open and stat the source, create or truncate the
  destination, copy the bytes, then give the destination the source's mode. The source
  is read after the destination has been truncated, as \<^verbatim>\<open>io.Copy\<close> does. The result
  is the error (\<open>None\<close> for \<^verbatim>\<open>nil\<close>) and the file system as the call leaves it.
\<close>

definition copy ::
    "FileMode \<Rightarrow> path \<Rightarrow> filesys \<Rightarrow> string \<Rightarrow> string \<Rightarrow> error option \<times> filesys" where
  "copy um cwd fs src dst =
     (case os_OpenFile um fs (resolve cwd src) False False False 0 of
        Inl err \<Rightarrow> (Some err, fs)
      | Inr fs0 \<Rightarrow>
     (case os_Stat fs0 (resolve cwd src) of
        Inl err \<Rightarrow> (Some err, fs0)
      | Inr info \<Rightarrow>
     (case os_OpenFile um fs0 (resolve cwd dst) True True True 0x1B6 of
        Inl err \<Rightarrow> (Some err, fs0)
      | Inr fs1 \<Rightarrow>
     (case lookup fs1 (resolve cwd src) of
        Some (FileNode m bytes) \<Rightarrow>
          (case os_Chmod (write_file fs1 (resolve cwd dst) bytes) (resolve cwd dst)
                  (case info of DirNode im \<Rightarrow> im | FileNode im c \<Rightarrow> im) of
             Inl err \<Rightarrow> (Some err, write_file fs1 (resolve cwd dst) bytes)
           | Inr fs2 \<Rightarrow> (None, fs2))
      | Some (DirNode m) \<Rightarrow> (Some EISDIR, fs1)
      | None \<Rightarrow> (Some ENOENT, fs1)))))"

section \<open>JSON bodies\<close>

text \<open>
  A JSON value as \<^verbatim>\<open>encoding/json\<close> scans it. \<open>JInt\<close> is a number written as an
  integer, \<open>JFloat\<close> any other number. The members of an object are kept in the order
  of the text, duplicates included.
\<close>

datatype json =
    JNull | JBool bool | JInt int | JFloat | JString string
  | JArray "json list" | JObject "(string \<times> json) list"

text \<open>
  An object key selects a struct field when the two names are equal under Unicode case
  folding. Against the ASCII names of the source's fields that is: ASCII letters match
  in either case, the Kelvin sign (bytes E2 84 AA) matches the letter k and the long s
  (bytes C5 BF) matches the letter s.
\<close>

definition ascii_upper :: "char \<Rightarrow> char" where
  "ascii_upper c =
     (case map_of (zip ''abcdefghijklmnopqrstuvwxyz'' ''ABCDEFGHIJKLMNOPQRSTUVWXYZ'') c of
        Some u \<Rightarrow> u
      | None \<Rightarrow> c)"

fun foldName :: "string \<Rightarrow> string" where
  "foldName [] = []"
| "foldName (c # cs) =
     (if c = CHR 0xE2 \<and> take 2 cs = [CHR 0x84, CHR 0xAA] then CHR ''K'' # foldName (drop 2 cs)
      else if c = CHR 0xC5 \<and> take 1 cs = [CHR 0xBF] then CHR ''S'' # foldName (drop 1 cs)
      else ascii_upper c # foldName cs)"

definition field_match :: "string \<Rightarrow> string \<Rightarrow> bool" where
  "field_match key name = (foldName key = foldName name)"

text \<open>
  Decoding a value into a \<^verbatim>\<open>string\<close> field: a string is stored, \<^verbatim>\<open>null\<close> leaves the
  field as it is, anything else leaves it as it is and records a type error (the flag).
\<close>

fun decode_string :: "json \<Rightarrow> string \<times> bool \<Rightarrow> string \<times> bool" where
  "decode_string (JString v) (cur, bad) = (v, bad)"
| "decode_string JNull (cur, bad) = (cur, bad)"
| "decode_string _ (cur, bad) = (cur, True)"

record registryTokenSvcResponse =
  Token :: string

text \<open>
  \<^verbatim>\<open>json.NewDecoder(resp.Body).Decode(&response)\<close> for the token response. The members
  are taken in order, so the last matching member decides; a recorded type error makes
  the call return an error after the whole value has been read.
\<close>

definition decodeToken :: "json option \<Rightarrow> error + registryTokenSvcResponse" where
  "decodeToken j =
     (case j of
        None \<Rightarrow> Inl JsonSyntaxError
      | Some JNull \<Rightarrow> Inr \<lparr>Token = []\<rparr>
      | Some (JObject kvs) \<Rightarrow>
          (case fold (\<lambda>(k, v) acc. if field_match k ''token'' then decode_string v acc else acc)
                  kvs ([], False) of
             (tok, bad) \<Rightarrow> if bad then Inl UnmarshalTypeError else Inr \<lparr>Token = tok\<rparr>)
      | Some _ \<Rightarrow> Inl UnmarshalTypeError)"

record layer =
  MediaType :: string
  Size :: "64 word"
  Digest :: string

record manifestResponse =
  Layers :: "layer list"

definition zero_layer :: layer where
  "zero_layer = \<lparr>MediaType = [], Size = 0, Digest = []\<rparr>"

definition decode_layer_member :: "string \<times> json \<Rightarrow> layer \<times> bool \<Rightarrow> layer \<times> bool" where
  "decode_layer_member kv acc =
     (case (kv, acc) of ((k, v), (l, bad)) \<Rightarrow>
        if field_match k ''mediaType'' then
          (case decode_string v (MediaType l, bad) of (x, bad') \<Rightarrow> (l\<lparr>MediaType := x\<rparr>, bad'))
        else if field_match k ''size'' then
          (case v of
             JNull \<Rightarrow> (l, bad)
           | JInt i \<Rightarrow>
               if - (2 ^ 63) \<le> i \<and> i < 2 ^ 63 then (l\<lparr>Size := word_of_int i\<rparr>, bad)
               else (l, True)
           | _ \<Rightarrow> (l, True))
        else if field_match k ''digest'' then
          (case decode_string v (Digest l, bad) of (x, bad') \<Rightarrow> (l\<lparr>Digest := x\<rparr>, bad'))
        else (l, bad))"

definition decode_layer :: "json \<Rightarrow> layer \<times> bool" where
  "decode_layer j =
     (case j of
        JNull \<Rightarrow> (zero_layer, False)
      | JObject kvs \<Rightarrow> fold decode_layer_member kvs (zero_layer, False)
      | _ \<Rightarrow> (zero_layer, True))"

text \<open>
  The manifest response. A member \<open>layers\<close> that is an array replaces the slice by
  the decoded elements.
\<close>

definition decode_layers_member ::
    "string \<times> json \<Rightarrow> layer list \<times> bool \<Rightarrow> layer list \<times> bool" where
  "decode_layers_member kv acc =
     (case (kv, acc) of ((k, v), (ls, bad)) \<Rightarrow>
        if field_match k ''layers'' then
          (case v of
             JNull \<Rightarrow> (ls, bad)
           | JArray xs \<Rightarrow>
               (map (\<lambda>x. fst (decode_layer x)) xs, bad \<or> list_ex (\<lambda>x. snd (decode_layer x)) xs)
           | _ \<Rightarrow> (ls, True))
        else (ls, bad))"

definition decodeManifest :: "json option \<Rightarrow> error + manifestResponse" where
  "decodeManifest j =
     (case j of
        None \<Rightarrow> Inl JsonSyntaxError
      | Some JNull \<Rightarrow> Inr \<lparr>Layers = []\<rparr>
      | Some (JObject kvs) \<Rightarrow>
          (case fold decode_layers_member kvs ([], False) of
             (ls, bad) \<Rightarrow> if bad then Inl UnmarshalTypeError else Inr \<lparr>Layers = ls\<rparr>)
      | Some _ \<Rightarrow> Inl UnmarshalTypeError)"

section \<open>The registry, the archives and the child: the world\<close>

text \<open>
  A tar entry as \<^verbatim>\<open>tr.Next()\<close> and the reads that follow give it: the header's name,
  type and mode, the bytes of the entry that can be read, and whether reading them ends
  without an error.
\<close>

datatype typeflag = TypeReg | TypeDir | TypeOther

record tar_entry =
  Name :: string
  Typeflag :: typeflag
  Mode :: "64 word"
  Data :: string
  DataOk :: bool

text \<open>
  A response body, by what its readers make of it: its first JSON value (\<open>None\<close> when
  the bytes are not JSON), and the entries that the gzip and tar readers yield (\<open>None\<close>
  when the bytes have no gzip header) together with the way the stream ends: \<open>True\<close>
  at \<^verbatim>\<open>io.EOF\<close>, \<open>False\<close> at an error of either reader.
\<close>

record body =
  as_json :: "json option"
  as_targz :: "(tar_entry list \<times> bool) option"

record request =
  req_url :: string
  req_headers :: "(string \<times> string) list"

datatype http_result = NetErr | Resp nat body

text \<open>How the spawned command ends, or that it could not be started.\<close>

datatype child_outcome = Exited nat | Signaled | NotStarted

text \<open>
  What the tool does that the outside can see, in order: a request sent, a tar entry
  applied to the root, the Root Preparer started (for a command and a root), the command
  run (with how it ended), the deferred removal.
\<close>

datatype event =
    EvHttp request
  | EvEntry string
  | EvPrepare string string
  | EvRun string "string list" string child_outcome
  | EvRemoveAll string

text \<open>
  Everything the run takes from outside: the argument vector, the suffix that
  \<^verbatim>\<open>ioutil.TempDir\<close> settles on, the umask, the working directory, which URLs parse,
  the answer to a request (given the number of events before it), and what running
  the command under the new root does.
\<close>

record world =
  w_args :: "string list"
  w_rand :: string
  w_umask :: FileMode
  w_cwd :: path
  w_url_ok :: "string \<Rightarrow> bool"
  w_http :: "nat \<Rightarrow> request \<Rightarrow> http_result"
  w_child :: "filesys \<Rightarrow> string \<Rightarrow> string list \<Rightarrow> string \<Rightarrow> child_outcome \<times> filesys"

record state =
  st_fs :: filesys
  st_trace :: "event list"

text \<open>
  Sending a request: a URL that does not parse is an error before anything is sent;
  otherwise the request is sent and the world answers.
\<close>

definition http_do :: "world \<Rightarrow> request \<Rightarrow> state \<Rightarrow> (error + nat \<times> body) \<times> state" where
  "http_do w req s =
     (if \<not> w_url_ok w (req_url req) then (Inl UrlError, s)
      else (case w_http w (length (st_trace s)) req of
              NetErr \<Rightarrow> Inl NetError
            | Resp status b \<Rightarrow> Inr (status, b),
            s\<lparr>st_trace := st_trace s @ [EvHttp req]\<rparr>))"

section \<open>The stages\<close>

text \<open>
  \<^verbatim>\<open>func registryLogin(image string) (string, error)\<close>. The parameter \<^verbatim>\<open>image\<close>
  is written \<open>img\<close> throughout, since \<open>image\<close> is a constant of HOL.
\<close>

definition token_url :: "string \<Rightarrow> string" where
  "token_url name =
     ''https://auth.docker.io/token?service=registry.docker.io&scope=repository:library/''
       @ name @ '':pull''"

definition registryLogin :: "world \<Rightarrow> string \<Rightarrow> state \<Rightarrow> string result \<times> state" where
  "registryLogin w img s =
     (let imageSplit = strings_Split img (CHR '':'') in
      case index imageSplit 0 of
        Inl p \<Rightarrow> (Panic p, s)
      | Inr name \<Rightarrow>
     (case http_do w \<lparr>req_url = token_url name, req_headers = []\<rparr> s of
        (Inl err, s') \<Rightarrow> (Err err, s')
      | (Inr (status, b), s') \<Rightarrow>
          if status \<noteq> 200
          then (Err (StatusError ''failed to get docker registry token. Status code: '' status), s')
          else (case decodeToken (as_json b) of
                  Inl err \<Rightarrow> (Err err, s')
                | Inr response \<Rightarrow> (Ok (Token response), s'))))"

text \<open>
  \<^verbatim>\<open>func fetchManifest(token, image string) (manifestResponse, error)\<close> of
  \<^verbatim>\<open>app/main.go\<close>: the tag is \<^verbatim>\<open>imageSplit[1]\<close>, whatever the length of the slice.
\<close>

definition manifest_url :: "string \<Rightarrow> string \<Rightarrow> string" where
  "manifest_url name tag = ''https://registry.hub.docker.com/v2/library/'' @ name @ ''/manifests/'' @ tag"

definition manifest_request :: "string \<Rightarrow> string \<Rightarrow> string \<Rightarrow> request" where
  "manifest_request token name tag =
     \<lparr>req_url = manifest_url name tag,
      req_headers = [(''Authorization'', ''Bearer '' @ token),
                     (''Accept'', ''application/vnd.docker.distribution.manifest.v2+json'')]\<rparr>"

definition fetchManifest ::
    "world \<Rightarrow> string \<Rightarrow> string \<Rightarrow> state \<Rightarrow> manifestResponse result \<times> state" where
  "fetchManifest w token img s =
     (let imageSplit = strings_Split img (CHR '':'') in
      case index imageSplit 0 of
        Inl p \<Rightarrow> (Panic p, s)
      | Inr name \<Rightarrow>
     (case index imageSplit 1 of
        Inl p \<Rightarrow> (Panic p, s)
      | Inr tag \<Rightarrow>
     (case http_do w (manifest_request token name tag) s of
        (Inl err, s') \<Rightarrow> (Err err, s')
      | (Inr (status, b), s') \<Rightarrow>
          if status \<noteq> 200
          then (Err (StatusError ''failed to get image manifest. Status code: '' status), s')
          else (case decodeManifest (as_json b) of
                  Inl err \<Rightarrow> (Err err, s')
                | Inr response \<Rightarrow> (Ok response, s')))))"

text \<open>
  The tag as the other variant of \<^verbatim>\<open>fetchManifest\<close> in the repository computes it
  (\<^verbatim>\<open>tag := "latest"; if len(imageSplit) == 2 { tag = imageSplit[1] }\<close>).
\<close>

definition tag_with_default :: "string \<Rightarrow> string" where
  "tag_with_default img =
     (let imageSplit = strings_Split img (CHR '':'')
      in if length imageSplit = 2 then imageSplit ! 1 else ''latest'')"

text \<open>
  One turn of the loop of \<^verbatim>\<open>extractLayer\<close> in \<^verbatim>\<open>app/main.go\<close>, for the header that
  \<^verbatim>\<open>tr.Next()\<close> returned. A regular file is opened with
  \<^verbatim>\<open>O_CREATE|O_RDWR\<close> and the entry's mode, and the entry's bytes are copied into it.
\<close>

definition extractEntry :: "world \<Rightarrow> string \<Rightarrow> tar_entry \<Rightarrow> state \<Rightarrow> unit result \<times> state" where
  "extractEntry w rootDir header s =
     (let target = filepath_Join [rootDir, Name header];
          p = resolve (w_cwd w) target;
          s1 = s\<lparr>st_trace := st_trace s @ [EvEntry target]\<rparr>
      in case Typeflag header of
           TypeDir \<Rightarrow>
             (case os_Stat (st_fs s1) p of
                Inr info \<Rightarrow> (Ok (), s1)
              | Inl err \<Rightarrow>
                  (case os_MkdirAll (w_umask w) (st_fs s1) p 0x1ED of
                     Inl err \<Rightarrow> (Err err, s1)
                   | Inr fs' \<Rightarrow> (Ok (), s1\<lparr>st_fs := fs'\<rparr>)))
         | TypeReg \<Rightarrow>
             (case os_OpenFile (w_umask w) (st_fs s1) p True False True (ucast (Mode header)) of
                Inl err \<Rightarrow> (Err err, s1)
              | Inr fs' \<Rightarrow>
                  (if DataOk header then Ok () else Err TarError,
                   s1\<lparr>st_fs := write_file fs' p (Data header)\<rparr>))
         | TypeOther \<Rightarrow> (Ok (), s1))"

text \<open>The loop: entries until \<^verbatim>\<open>io.EOF\<close> or an error of the reader.\<close>

fun extractEntries ::
    "world \<Rightarrow> string \<Rightarrow> tar_entry list \<Rightarrow> bool \<Rightarrow> state \<Rightarrow> unit result \<times> state" where
  "extractEntries w rootDir [] ends_ok s = (if ends_ok then Ok () else Err TarError, s)"
| "extractEntries w rootDir (header # rest) ends_ok s =
     (case extractEntry w rootDir header s of
        (Ok u, s') \<Rightarrow> extractEntries w rootDir rest ends_ok s'
      | (Err err, s') \<Rightarrow> (Err err, s')
      | (Panic p, s') \<Rightarrow> (Panic p, s'))"

text \<open>\<^verbatim>\<open>func extractLayer(token, image, digest, rootDir string) error\<close>.\<close>

definition blob_request :: "string \<Rightarrow> string \<Rightarrow> string \<Rightarrow> request" where
  "blob_request token name digest =
     \<lparr>req_url = ''https://registry.hub.docker.com/v2/library/'' @ name @ ''/blobs/'' @ digest,
      req_headers = [(''Authorization'', ''Bearer '' @ token)]\<rparr>"

definition extractLayer ::
    "world \<Rightarrow> string \<Rightarrow> string \<Rightarrow> string \<Rightarrow> string \<Rightarrow> state \<Rightarrow> unit result \<times> state" where
  "extractLayer w token img digest rootDir s =
     (let imageSplit = strings_Split img (CHR '':'') in
      case index imageSplit 0 of
        Inl p \<Rightarrow> (Panic p, s)
      | Inr name \<Rightarrow>
     (case http_do w (blob_request token name digest) s of
        (Inl err, s') \<Rightarrow> (Err err, s')
      | (Inr (status, b), s') \<Rightarrow>
          if status \<noteq> 200
          then (Err (StatusError ''failed to get image manifest. Status code: '' status), s')
          else (case as_targz b of
                  None \<Rightarrow> (Err GzipError, s')
                | Some (entries, ends_ok) \<Rightarrow> extractEntries w rootDir entries ends_ok s')))"

text \<open>The loop of \<^verbatim>\<open>main\<close> over \<^verbatim>\<open>manifest.Layers\<close>.\<close>

fun extractLayers ::
    "world \<Rightarrow> string \<Rightarrow> string \<Rightarrow> layer list \<Rightarrow> string \<Rightarrow> state \<Rightarrow> unit result \<times> state" where
  "extractLayers w token img [] rootDir s = (Ok (), s)"
| "extractLayers w token img (l # ls) rootDir s =
     (case extractLayer w token img (Digest l) rootDir s of
        (Ok u, s') \<Rightarrow> extractLayers w token img ls rootDir s'
      | (Err err, s') \<Rightarrow> (Err err, s')
      | (Panic p, s') \<Rightarrow> (Panic p, s'))"

text \<open>
  The Root Preparer, lines 205 to 216 of \<^verbatim>\<open>main\<close>: make the command's directory
  inside the root, then \<^verbatim>\<open>copy(command, chrootCommand)\<close>.
\<close>

definition chrootCommand :: "string \<Rightarrow> string \<Rightarrow> string" where
  "chrootCommand chrootRoot command =
     (let commandDir = filepath_Dir command;
          commandName = filepath_Base command;
          chrootCommandDir = filepath_Join [chrootRoot, commandDir]
      in filepath_Join [chrootCommandDir, commandName])"

definition rootPreparer ::
    "world \<Rightarrow> string \<Rightarrow> string \<Rightarrow> filesys \<Rightarrow> error option \<times> filesys" where
  "rootPreparer w command chrootRoot fs =
     (let chrootCommandDir = filepath_Join [chrootRoot, filepath_Dir command] in
      case os_MkdirAll (w_umask w) fs (resolve (w_cwd w) chrootCommandDir) 0x1FF of
        Inl err \<Rightarrow> (Some err, fs)
      | Inr fs1 \<Rightarrow> copy (w_umask w) (w_cwd w) fs1 command (chrootCommand chrootRoot command))"

text \<open>
  \<^verbatim>\<open>cmd.Run()\<close>: \<^verbatim>\<open>nil\<close> when the child exits with 0; an \<^verbatim>\<open>*exec.ExitError\<close> when
  it exits with another code or is killed by a signal (\<^verbatim>\<open>ExitCode()\<close> is then -1); any
  other error when the child could not be started.
\<close>

definition cmd_Run :: "child_outcome \<Rightarrow> error option" where
  "cmd_Run oc =
     (case oc of
        Exited n \<Rightarrow> if n = 0 then None else Some (ExitError (int n))
      | Signaled \<Rightarrow> Some (ExitError (- 1))
      | NotStarted \<Rightarrow> Some StartError)"

text \<open>
  How the tool's process ends: \<^verbatim>\<open>main\<close> returns, \<^verbatim>\<open>os.Exit\<close> is called, or a panic
  reaches the top (the runtime prints it and exits with status 2).
\<close>

datatype outcome = Returned | OsExit int | Panicked panic

definition exit_status :: "outcome \<Rightarrow> nat" where
  "exit_status out =
     (case out of Returned \<Rightarrow> 0 | OsExit c \<Rightarrow> nat (c mod 256) | Panicked p \<Rightarrow> 2)"

text \<open>Of the three ways to end, only a panic prints a diagnostic.\<close>

definition prints_diagnostic :: "outcome \<Rightarrow> bool" where
  "prints_diagnostic out = (case out of Panicked p \<Rightarrow> True | _ \<Rightarrow> False)"

text \<open>
  Lines 227 to 232 of \<^verbatim>\<open>main\<close>, the translation of the error of \<^verbatim>\<open>cmd.Run()\<close>:
  an exit-status error ends the process with \<^verbatim>\<open>os.Exit(exitErr.ExitCode())\<close>; without
  an error, and with any other error, \<^verbatim>\<open>main\<close> goes on to its end and returns.
\<close>

definition translate :: "child_outcome \<Rightarrow> outcome" where
  "translate oc =
     (case cmd_Run oc of
        None \<Rightarrow> Returned
      | Some (ExitError c) \<Rightarrow> OsExit c
      | Some _ \<Rightarrow> Returned)"

text \<open>Lines 218 to 232 of \<^verbatim>\<open>main\<close>: run the command and translate how it ended.\<close>

definition runCommand ::
    "world \<Rightarrow> string \<Rightarrow> string list \<Rightarrow> string \<Rightarrow> state \<Rightarrow> outcome \<times> state" where
  "runCommand w command args chrootRoot s =
     (case w_child w (st_fs s) command args chrootRoot of
        (oc, fs') \<Rightarrow>
          (translate oc,
           \<lparr>st_fs = fs', st_trace = st_trace s @ [EvRun command args chrootRoot oc]\<rparr>))"

text \<open>Lines 189 to 232 of \<^verbatim>\<open>main\<close>: what runs after the removal has been deferred.\<close>

definition main_body ::
    "world \<Rightarrow> string \<Rightarrow> string \<Rightarrow> string list \<Rightarrow> string \<Rightarrow> state \<Rightarrow> outcome \<times> state" where
  "main_body w img command args chrootRoot s =
     (case registryLogin w img s of
        (Panic p, s1) \<Rightarrow> (Panicked p, s1)
      | (Err err, s1) \<Rightarrow> (Panicked (PanicErr err), s1)
      | (Ok token, s1) \<Rightarrow>
     (case fetchManifest w token img s1 of
        (Panic p, s2) \<Rightarrow> (Panicked p, s2)
      | (Err err, s2) \<Rightarrow> (Panicked (PanicErr err), s2)
      | (Ok manifest, s2) \<Rightarrow>
     (case extractLayers w token img (Layers manifest) chrootRoot s2 of
        (Panic p, s3) \<Rightarrow> (Panicked p, s3)
      | (Err err, s3) \<Rightarrow> (Panicked (PanicErr err), s3)
      | (Ok u, s3) \<Rightarrow>
     (case rootPreparer w command chrootRoot (st_fs s3) of
        (Some err, fs4) \<Rightarrow>
          (Panicked (PanicErr err),
           \<lparr>st_fs = fs4, st_trace = st_trace s3 @ [EvPrepare command chrootRoot]\<rparr>)
      | (None, fs4) \<Rightarrow>
          runCommand w command args chrootRoot
            \<lparr>st_fs = fs4, st_trace = st_trace s3 @ [EvPrepare command chrootRoot]\<rparr>))))"

text \<open>
  \<^verbatim>\<open>ioutil.TempDir("/tmp", "docker")\<close>: a new directory \<^verbatim>\<open>/tmp/docker\<close> followed by the
  suffix, with mode 0700 less the umask; the call returns its name.
\<close>

definition TempDir :: "world \<Rightarrow> filesys \<Rightarrow> error + string \<times> filesys" where
  "TempDir w fs =
     (let name = ''/tmp/docker'' @ w_rand w;
          p = resolve (w_cwd w) name
      in case lookup fs (butlast p) of
           None \<Rightarrow> Inl ENOENT
         | Some (FileNode m c) \<Rightarrow> Inl ENOTDIR
         | Some (DirNode m) \<Rightarrow>
             (case lookup fs p of
                Some n \<Rightarrow> Inl EEXIST
              | None \<Rightarrow> Inr (name, fs(p \<mapsto> DirNode (0x1C0 AND NOT (w_umask w))))))"

text \<open>
  \<^verbatim>\<open>func main()\<close> of \<^verbatim>\<open>app/main.go\<close>. The deferred \<^verbatim>\<open>os.RemoveAll(dir)\<close> runs when
  \<^verbatim>\<open>main\<close> returns and when it panics; \<^verbatim>\<open>os.Exit\<close> ends the process without running
  deferred calls. The result is how the process ends, and the file system and the events
  at that moment.
\<close>

definition main :: "world \<Rightarrow> filesys \<Rightarrow> outcome \<times> state" where
  "main w fs0 =
     (case index (w_args w) 2 of
        Inl p \<Rightarrow> (Panicked p, \<lparr>st_fs = fs0, st_trace = []\<rparr>)
      | Inr img \<Rightarrow>
     (case index (w_args w) 3 of
        Inl p \<Rightarrow> (Panicked p, \<lparr>st_fs = fs0, st_trace = []\<rparr>)
      | Inr command \<Rightarrow>
     (case TempDir w fs0 of
        Inl err \<Rightarrow> (Panicked (PanicErr err), \<lparr>st_fs = fs0, st_trace = []\<rparr>)
      | Inr (dir, fs1) \<Rightarrow>
     (case main_body w img command (drop 4 (w_args w)) (filepath_Join [''/tmp'', dir])
             \<lparr>st_fs = fs1, st_trace = []\<rparr> of
        (OsExit c, s) \<Rightarrow> (OsExit c, s)
      | (out, s) \<Rightarrow>
          (out, \<lparr>st_fs = os_RemoveAll (st_fs s) (resolve (w_cwd w) dir),
                 st_trace = st_trace s @ [EvRemoveAll dir]\<rparr>)))))"

section \<open>Reading a run\<close>

text \<open>The world answers the request sent as event number \<open>i\<close> with a status other than 200.\<close>

definition bad_response :: "world \<Rightarrow> nat \<Rightarrow> request \<Rightarrow> bool" where
  "bad_response w i req =
     (case w_http w i req of Resp status b \<Rightarrow> status \<noteq> 200 | NetErr \<Rightarrow> False)"

text \<open>No request of the trace was answered with a status other than 200.\<close>

definition clean :: "world \<Rightarrow> event list \<Rightarrow> bool" where
  "clean w tr = (\<forall>i req. i < length tr \<and> tr ! i = EvHttp req \<longrightarrow> \<not> bad_response w i req)"

text \<open>
  The trace ends with the one request that was answered with a status other than 200,
  and \<open>err\<close> is the error made from that status.
\<close>

definition stopped :: "world \<Rightarrow> event list \<Rightarrow> error \<Rightarrow> bool" where
  "stopped w tr err =
     (\<exists>tr0 req status b msg. tr = tr0 @ [EvHttp req] \<and> clean w tr0 \<and>
        w_http w (length tr0) req = Resp status b \<and> status \<noteq> 200 \<and>
        err = StatusError msg status)"

definition stage_ok :: "world \<Rightarrow> event list \<Rightarrow> 'a result \<Rightarrow> bool" where
  "stage_ok w tr r = (clean w tr \<or> (\<exists>err. r = Err err \<and> stopped w tr err))"

text \<open>How \<^verbatim>\<open>main\<close> ends when a stage has not returned a value: \<^verbatim>\<open>panic(err)\<close>.\<close>

definition fails_with :: "'a result \<Rightarrow> outcome \<Rightarrow> bool" where
  "fails_with r out =
     (case r of
        Ok v \<Rightarrow> False
      | Err err \<Rightarrow> out = Panicked (PanicErr err)
      | Panic p \<Rightarrow> out = Panicked p)"

text \<open>
  The events of the stages that follow the login: requests that carry the token as
  bearer credential, tar entries, and the start of the Root Preparer.
\<close>

definition stage_event :: "string \<Rightarrow> event \<Rightarrow> bool" where
  "stage_event tok e =
     (case e of
        EvHttp r \<Rightarrow> map_of (req_headers r) ''Authorization'' = Some (''Bearer '' @ tok)
      | EvEntry t \<Rightarrow> True
      | EvPrepare c r \<Rightarrow> True
      | _ \<Rightarrow> False)"

section \<open>A registry, an image and a host to run on\<close>

text \<open>
  A host with \<^verbatim>\<open>/tmp\<close> and \<^verbatim>\<open>/bin/echo\<close>; a registry that serves the image
  \<^verbatim>\<open>busybox:latest\<close> in two layers, where the second layer holds \<^verbatim>\<open>etc/motd\<close> again,
  shorter and with another mode; every other request is answered with 404.
\<close>

definition host_fs :: filesys where
  "host_fs = map_of
     [([''tmp''], DirNode 0x1FF),
      ([''bin''], DirNode 0x1ED),
      ([''bin'', ''echo''], FileNode 0x1ED ''host echo'')]"

definition good_token :: json where
  "good_token = JObject [(''token'', JString ''T'')]"

definition token_body :: "json \<Rightarrow> body" where
  "token_body j = \<lparr>as_json = Some j, as_targz = None\<rparr>"

definition manifest_body :: body where
  "manifest_body =
     \<lparr>as_json = Some (JObject [(''layers'',
        JArray [JObject [(''digest'', JString ''sha256:1'')],
                JObject [(''digest'', JString ''sha256:2'')]])]),
      as_targz = None\<rparr>"

definition two_layers :: "layer list" where
  "two_layers = [\<lparr>MediaType = [], Size = 0, Digest = ''sha256:1''\<rparr>,
                 \<lparr>MediaType = [], Size = 0, Digest = ''sha256:2''\<rparr>]"

definition layer1 :: "tar_entry list" where
  "layer1 =
     [\<lparr>Name = ''bin/'', Typeflag = TypeDir, Mode = 0x1ED, Data = [], DataOk = True\<rparr>,
      \<lparr>Name = ''bin/echo'', Typeflag = TypeReg, Mode = 0x1ED, Data = ''layer echo'',
       DataOk = True\<rparr>,
      \<lparr>Name = ''etc/'', Typeflag = TypeDir, Mode = 0x1ED, Data = [], DataOk = True\<rparr>,
      \<lparr>Name = ''etc/motd'', Typeflag = TypeReg, Mode = 0x1ED, Data = ''hello'',
       DataOk = True\<rparr>]"

definition layer2 :: "tar_entry list" where
  "layer2 =
     [\<lparr>Name = ''etc/'', Typeflag = TypeDir, Mode = 0x1ED, Data = [], DataOk = True\<rparr>,
      \<lparr>Name = ''etc/motd'', Typeflag = TypeReg, Mode = 0x1A4, Data = ''hi'', DataOk = True\<rparr>]"

definition blob_body :: "tar_entry list \<Rightarrow> body" where
  "blob_body entries = \<lparr>as_json = None, as_targz = Some (entries, True)\<rparr>"

definition registry :: "json \<Rightarrow> nat \<Rightarrow> request \<Rightarrow> http_result" where
  "registry token_json t r =
     (if req_url r = token_url ''busybox'' then Resp 200 (token_body token_json)
      else if req_url r = manifest_url ''busybox'' ''latest'' then Resp 200 manifest_body
      else if req_url r = ''https://registry.hub.docker.com/v2/library/busybox/blobs/sha256:1''
        then Resp 200 (blob_body layer1)
      else if req_url r = ''https://registry.hub.docker.com/v2/library/busybox/blobs/sha256:2''
        then Resp 200 (blob_body layer2)
      else Resp 404 \<lparr>as_json = None, as_targz = None\<rparr>)"

text \<open>
  The run \<^verbatim>\<open>your_docker.sh run <img> /bin/echo hello\<close> against that registry, for an
  image reference, the JSON value of the token response and the way the child ends.
\<close>

definition demo_world :: "string \<Rightarrow> json \<Rightarrow> child_outcome \<Rightarrow> world" where
  "demo_world img token_json oc =
     \<lparr>w_args = [''your_docker.sh'', ''run'', img, ''/bin/echo'', ''hello''],
      w_rand = ''123'', w_umask = 0, w_cwd = [],
      w_url_ok = (\<lambda>u. True),
      w_http = registry token_json,
      w_child = (\<lambda>fs command args root. (oc, fs))\<rparr>"

section \<open>Lemmas\<close>

lemma strings_Split_nonempty: "strings_Split s c \<noteq> []"
  by (induction s) (auto split: list.splits)

lemma strings_Split_no_sep: "c \<notin> set s \<Longrightarrow> strings_Split s c = [s]"
  by (induction s) auto

lemma strings_Split_one_sep:
  "c \<notin> set a \<Longrightarrow> c \<notin> set b \<Longrightarrow> strings_Split (a @ c # b) c = [a, b]"
  by (induction a) (auto simp: strings_Split_no_sep)

lemma index_Split_0: "\<exists>name. index (strings_Split s c) 0 = Inr name"
  using strings_Split_nonempty [of s c] by (simp add: index_def)

lemma http_do_trace:
  assumes "http_do w req s = (r, s')"
  shows "st_fs s' = st_fs s \<and>
    ((st_trace s' = st_trace s \<and> r = Inl UrlError) \<or>
     (st_trace s' = st_trace s @ [EvHttp req] \<and>
      r = (case w_http w (length (st_trace s)) req of NetErr \<Rightarrow> Inl NetError | Resp status b \<Rightarrow> Inr (status, b))))"
  using assms by (auto simp: http_do_def split: if_splits)

lemma clean_Nil: "clean w []"
  by (simp add: clean_def)

lemma clean_snoc:
  "clean w (tr @ [e]) \<longleftrightarrow> clean w tr \<and> (\<forall>req. e = EvHttp req \<longrightarrow> \<not> bad_response w (length tr) req)"
proof
  assume c: "clean w (tr @ [e])"
  have "clean w tr"
    unfolding clean_def
  proof (intro allI impI)
    fix i req assume "i < length tr \<and> tr ! i = EvHttp req"
    then have "i < length (tr @ [e]) \<and> (tr @ [e]) ! i = EvHttp req"
      by (simp add: nth_append)
    with c show "\<not> bad_response w i req" unfolding clean_def by blast
  qed
  moreover have "\<forall>req. e = EvHttp req \<longrightarrow> \<not> bad_response w (length tr) req"
  proof (intro allI impI)
    fix req assume "e = EvHttp req"
    then have "length tr < length (tr @ [e]) \<and> (tr @ [e]) ! length tr = EvHttp req"
      by simp
    with c show "\<not> bad_response w (length tr) req" unfolding clean_def by blast
  qed
  ultimately show "clean w tr \<and> (\<forall>req. e = EvHttp req \<longrightarrow> \<not> bad_response w (length tr) req)" ..
next
  assume a: "clean w tr \<and> (\<forall>req. e = EvHttp req \<longrightarrow> \<not> bad_response w (length tr) req)"
  show "clean w (tr @ [e])"
    unfolding clean_def
  proof (intro allI impI)
    fix i req assume h: "i < length (tr @ [e]) \<and> (tr @ [e]) ! i = EvHttp req"
    show "\<not> bad_response w i req"
    proof (cases "i < length tr")
      case True
      with h have "tr ! i = EvHttp req" by (simp add: nth_append)
      with a True show ?thesis unfolding clean_def by blast
    next
      case False
      with h have "i = length tr" by simp
      with h a show ?thesis by simp
    qed
  qed
qed

lemma clean_snoc_entry: "clean w tr \<Longrightarrow> clean w (tr @ [EvEntry t])"
  by (simp add: clean_snoc)

lemma http_do_clean:
  assumes "http_do w req s = (r, s')" and "clean w (st_trace s)"
  shows "case r of
           Inl err \<Rightarrow> clean w (st_trace s')
         | Inr (status, b) \<Rightarrow>
             if status = 200 then clean w (st_trace s')
             else stopped w (st_trace s') (StatusError msg status)"
  using assms
  by (auto simp: http_do_def clean_snoc bad_response_def stopped_def
      split: if_splits http_result.splits)

lemma registryLogin_ok:
  assumes "registryLogin w img s = (r, s')" and "clean w (st_trace s)"
  shows "stage_ok w (st_trace s') r"
proof -
  obtain name where n: "index (strings_Split img (CHR '':'')) 0 = Inr name"
    using index_Split_0 by blast
  obtain h s1 where h: "http_do w \<lparr>req_url = token_url name, req_headers = []\<rparr> s = (h, s1)"
    by (cases "http_do w \<lparr>req_url = token_url name, req_headers = []\<rparr> s")
  note c = http_do_clean [OF h assms(2)]
  show ?thesis
    using assms(1) n h c
    by (auto simp: registryLogin_def stage_ok_def split: sum.splits if_splits)
qed

lemma fetchManifest_ok:
  assumes "fetchManifest w token img s = (r, s')" and "clean w (st_trace s)"
  shows "stage_ok w (st_trace s') r"
proof -
  obtain name where n: "index (strings_Split img (CHR '':'')) 0 = Inr name"
    using index_Split_0 by blast
  show ?thesis
  proof (cases "index (strings_Split img (CHR '':'')) 1")
    case (Inl p)
    with assms n show ?thesis by (simp add: fetchManifest_def stage_ok_def)
  next
    case (Inr tag)
    obtain h s1 where h: "http_do w (manifest_request token name tag) s = (h, s1)"
      by (cases "http_do w (manifest_request token name tag) s")
    note c = http_do_clean [OF h assms(2)]
    show ?thesis
      using assms(1) n Inr h c
      by (auto simp: fetchManifest_def stage_ok_def split: sum.splits if_splits)
  qed
qed

lemma extractEntry_trace:
  assumes "extractEntry w rootDir header s = (r, s')"
  shows "st_trace s' = st_trace s @ [EvEntry (filepath_Join [rootDir, Name header])]"
  using assms
  by (auto simp: extractEntry_def Let_def split: typeflag.splits sum.splits)

lemma extractEntries_trace:
  assumes "extractEntries w rootDir entries ends_ok s = (r, s')"
  shows "\<exists>evs. st_trace s' = st_trace s @ evs \<and> (\<forall>e \<in> set evs. \<exists>t. e = EvEntry t)"
  using assms
proof (induction entries arbitrary: s)
  case Nil
  then show ?case by auto
next
  case (Cons header rest)
  obtain r1 s1 where e: "extractEntry w rootDir header s = (r1, s1)"
    by (cases "extractEntry w rootDir header s")
  note t = extractEntry_trace [OF e]
  show ?case
  proof (cases r1)
    case (Ok u)
    with Cons.prems e have "extractEntries w rootDir rest ends_ok s1 = (r, s')" by simp
    from Cons.IH [OF this] t show ?thesis by auto
  next
    case (Err err)
    with Cons.prems e t show ?thesis by auto
  next
    case (Panic p)
    with Cons.prems e t show ?thesis by auto
  qed
qed

lemma clean_append_entries:
  assumes "clean w tr" and "\<forall>e \<in> set evs. \<exists>t. e = EvEntry t"
  shows "clean w (tr @ evs)"
  using assms
  by (induction evs rule: rev_induct) (auto simp: clean_snoc simp flip: append_assoc)

lemma extractLayer_ok:
  assumes "extractLayer w token img digest rootDir s = (r, s')" and "clean w (st_trace s)"
  shows "stage_ok w (st_trace s') r"
proof -
  obtain name where n: "index (strings_Split img (CHR '':'')) 0 = Inr name"
    using index_Split_0 by blast
  obtain h s1 where h: "http_do w (blob_request token name digest) s = (h, s1)"
    by (cases "http_do w (blob_request token name digest) s")
  note c = http_do_clean [OF h assms(2)]
  show ?thesis
  proof (cases h)
    case (Inl err)
    with assms(1) n h c show ?thesis
      by (simp add: extractLayer_def stage_ok_def)
  next
    case (Inr sb)
    obtain status b where sb: "sb = (status, b)" by (cases sb)
    show ?thesis
    proof (cases "status = 200")
      case False
      with assms(1) n h c Inr sb show ?thesis
        by (auto simp: extractLayer_def stage_ok_def)
    next
      case True
      with c Inr sb have c1: "clean w (st_trace s1)" by simp
      show ?thesis
      proof (cases "as_targz b")
        case None
        with assms(1) n h Inr sb True c1 show ?thesis
          by (simp add: extractLayer_def stage_ok_def)
      next
        case (Some a)
        obtain entries ends_ok where a: "a = (entries, ends_ok)" by (cases a)
        from assms(1) n h Inr sb True Some a
        have "extractEntries w rootDir entries ends_ok s1 = (r, s')"
          by (simp add: extractLayer_def)
        from extractEntries_trace [OF this] c1 show ?thesis
          by (auto simp: stage_ok_def intro: clean_append_entries)
      qed
    qed
  qed
qed

lemma extractLayers_ok:
  assumes "extractLayers w token img ls rootDir s = (r, s')" and "clean w (st_trace s)"
  shows "stage_ok w (st_trace s') r"
  using assms
proof (induction ls arbitrary: s)
  case Nil
  then show ?case by (auto simp: stage_ok_def)
next
  case (Cons l ls)
  obtain r1 s1 where e: "extractLayer w token img (Digest l) rootDir s = (r1, s1)"
    by (cases "extractLayer w token img (Digest l) rootDir s")
  note k = extractLayer_ok [OF e Cons.prems(2)]
  show ?case
  proof (cases r1)
    case (Ok u)
    with k have "clean w (st_trace s1)" by (simp add: stage_ok_def)
    moreover from Cons.prems(1) e Ok have "extractLayers w token img ls rootDir s1 = (r, s')"
      by simp
    ultimately show ?thesis by (rule Cons.IH [rotated])
  next
    case (Err err)
    with Cons.prems(1) e k show ?thesis by simp
  next
    case (Panic p)
    with Cons.prems(1) e k show ?thesis by simp
  qed
qed

lemma registryLogin_events:
  assumes "registryLogin w img s = (r, s')"
  shows "st_fs s' = st_fs s \<and> (\<exists>evs. st_trace s' = st_trace s @ evs \<and>
     (evs = [] \<or> (\<exists>req. evs = [EvHttp req])))"
proof -
  obtain name where n: "index (strings_Split img (CHR '':'')) 0 = Inr name"
    using index_Split_0 by blast
  obtain h s1 where h: "http_do w \<lparr>req_url = token_url name, req_headers = []\<rparr> s = (h, s1)"
    by (cases "http_do w \<lparr>req_url = token_url name, req_headers = []\<rparr> s")
  note c = http_do_trace [OF h]
  show ?thesis
    using assms(1) n h c
    by (auto simp: registryLogin_def split: sum.splits if_splits)
qed

lemma stage_event_manifest: "stage_event token (EvHttp (manifest_request token name tag))"
  by (simp add: stage_event_def manifest_request_def)

lemma stage_event_blob: "stage_event token (EvHttp (blob_request token name digest))"
  by (simp add: stage_event_def blob_request_def)

lemma fetchManifest_events:
  assumes "fetchManifest w token img s = (r, s')"
  shows "\<exists>evs. st_trace s' = st_trace s @ evs \<and> (\<forall>e \<in> set evs. stage_event token e)"
proof -
  obtain name where n: "index (strings_Split img (CHR '':'')) 0 = Inr name"
    using index_Split_0 by blast
  show ?thesis
  proof (cases "index (strings_Split img (CHR '':'')) 1")
    case (Inl p)
    with assms n show ?thesis by (simp add: fetchManifest_def)
  next
    case (Inr tag)
    obtain h s1 where h: "http_do w (manifest_request token name tag) s = (h, s1)"
      by (cases "http_do w (manifest_request token name tag) s")
    note c = http_do_trace [OF h]
    show ?thesis
      using assms(1) n Inr h c stage_event_manifest [of token name tag]
      by (auto simp: fetchManifest_def split: sum.splits if_splits)
  qed
qed

lemma extractLayer_events:
  assumes "extractLayer w token img digest rootDir s = (r, s')"
  shows "\<exists>evs. st_trace s' = st_trace s @ evs \<and> (\<forall>e \<in> set evs. stage_event token e)"
proof -
  obtain name where n: "index (strings_Split img (CHR '':'')) 0 = Inr name"
    using index_Split_0 by blast
  obtain h s1 where h: "http_do w (blob_request token name digest) s = (h, s1)"
    by (cases "http_do w (blob_request token name digest) s")
  from http_do_trace [OF h] stage_event_blob [of token name digest]
  have t1: "\<exists>evs. st_trace s1 = st_trace s @ evs \<and> (\<forall>e \<in> set evs. stage_event token e)"
    by auto
  have ent: "\<And>t. stage_event token (EvEntry t)" by (simp add: stage_event_def)
  show ?thesis
  proof (cases h)
    case (Inl err)
    with assms n h t1 show ?thesis by (simp add: extractLayer_def)
  next
    case (Inr sb)
    obtain status b where sb: "sb = (status, b)" by (cases sb)
    show ?thesis
    proof (cases "status = 200")
      case False
      with assms n h t1 Inr sb show ?thesis by (simp add: extractLayer_def)
    next
      case True
      show ?thesis
      proof (cases "as_targz b")
        case None
        with assms n h t1 Inr sb True show ?thesis by (simp add: extractLayer_def)
      next
        case (Some a)
        obtain entries ends_ok where a: "a = (entries, ends_ok)" by (cases a)
        from assms n h Inr sb True Some a
        have "extractEntries w rootDir entries ends_ok s1 = (r, s')"
          by (simp add: extractLayer_def)
        from extractEntries_trace [OF this] obtain evs2 where
          "st_trace s' = st_trace s1 @ evs2" "\<forall>e \<in> set evs2. \<exists>t. e = EvEntry t" by blast
        with t1 ent show ?thesis by fastforce
      qed
    qed
  qed
qed

lemma extractLayers_events:
  assumes "extractLayers w token img ls rootDir s = (r, s')"
  shows "\<exists>evs. st_trace s' = st_trace s @ evs \<and> (\<forall>e \<in> set evs. stage_event token e)"
  using assms
proof (induction ls arbitrary: s)
  case Nil
  then show ?case by auto
next
  case (Cons l ls)
  obtain r1 s1 where e: "extractLayer w token img (Digest l) rootDir s = (r1, s1)"
    by (cases "extractLayer w token img (Digest l) rootDir s")
  from extractLayer_events [OF e] obtain evs1 where
    t: "st_trace s1 = st_trace s @ evs1" "\<forall>e \<in> set evs1. stage_event token e" by blast
  show ?case
  proof (cases r1)
    case (Ok u)
    with Cons.prems e have "extractLayers w token img ls rootDir s1 = (r, s')" by simp
    from Cons.IH [OF this] t show ?thesis by auto
  next
    case (Err err)
    with Cons.prems e t show ?thesis by auto
  next
    case (Panic p)
    with Cons.prems e t show ?thesis by auto
  qed
qed

lemma main_body_cases:
  assumes "main_body w img command args root s = (out, s')"
  obtains
    (login) r1 where "registryLogin w img s = (r1, s')" "fails_with r1 out"
  | (manifest) token s1 r2 where "registryLogin w img s = (Ok token, s1)"
      "fetchManifest w token img s1 = (r2, s')" "fails_with r2 out"
  | (layers) token s1 manifest s2 r3 where "registryLogin w img s = (Ok token, s1)"
      "fetchManifest w token img s1 = (Ok manifest, s2)"
      "extractLayers w token img (Layers manifest) root s2 = (r3, s')" "fails_with r3 out"
  | (prepare) token s1 manifest s2 s3 err fs4 where "registryLogin w img s = (Ok token, s1)"
      "fetchManifest w token img s1 = (Ok manifest, s2)"
      "extractLayers w token img (Layers manifest) root s2 = (Ok (), s3)"
      "rootPreparer w command root (st_fs s3) = (Some err, fs4)" "out = Panicked (PanicErr err)"
      "s' = \<lparr>st_fs = fs4, st_trace = st_trace s3 @ [EvPrepare command root]\<rparr>"
  | (run) token s1 manifest s2 s3 fs4 where "registryLogin w img s = (Ok token, s1)"
      "fetchManifest w token img s1 = (Ok manifest, s2)"
      "extractLayers w token img (Layers manifest) root s2 = (Ok (), s3)"
      "rootPreparer w command root (st_fs s3) = (None, fs4)"
      "runCommand w command args root
         \<lparr>st_fs = fs4, st_trace = st_trace s3 @ [EvPrepare command root]\<rparr> = (out, s')"
  using assms unfolding main_body_def
  by (auto simp: fails_with_def split: prod.splits result.splits option.splits)

lemma main_cases:
  assumes "main w fs0 = (out, s)"
  obtains
    (early) p where "out = Panicked p" "s = \<lparr>st_fs = fs0, st_trace = []\<rparr>"
  | (exit) img command dir fs1 c where "index (w_args w) 2 = Inr img"
      "index (w_args w) 3 = Inr command" "TempDir w fs0 = Inr (dir, fs1)"
      "main_body w img command (drop 4 (w_args w)) (filepath_Join [''/tmp'', dir])
         \<lparr>st_fs = fs1, st_trace = []\<rparr> = (OsExit c, s)" "out = OsExit c"
  | (deferred) img command dir fs1 sb where "index (w_args w) 2 = Inr img"
      "index (w_args w) 3 = Inr command" "TempDir w fs0 = Inr (dir, fs1)"
      "main_body w img command (drop 4 (w_args w)) (filepath_Join [''/tmp'', dir])
         \<lparr>st_fs = fs1, st_trace = []\<rparr> = (out, sb)" "\<forall>c. out \<noteq> OsExit c"
      "s = \<lparr>st_fs = os_RemoveAll (st_fs sb) (resolve (w_cwd w) dir),
            st_trace = st_trace sb @ [EvRemoveAll dir]\<rparr>"
  using assms unfolding main_def
  by (auto split: prod.splits sum.splits outcome.splits)

lemma runCommand_trace:
  assumes "runCommand w command args root s = (out, s')"
  shows "\<exists>oc. st_trace s' = st_trace s @ [EvRun command args root oc] \<and> out = translate oc"
  using assms by (auto simp: runCommand_def split: prod.splits)

lemma fails_with_stage_ok:
  assumes "stage_ok w tr r" and "fails_with r out"
  shows "clean w tr \<or> (\<exists>err. out = Panicked (PanicErr err) \<and> stopped w tr err)"
  using assms by (auto simp: stage_ok_def fails_with_def)

lemma stage_ok_Ok: "stage_ok w tr (Ok v) \<Longrightarrow> clean w tr"
  by (simp add: stage_ok_def)

lemma main_body_ok:
  assumes run: "main_body w img command args root s = (out, s')" and c: "clean w (st_trace s)"
  shows "clean w (st_trace s') \<or> (\<exists>err. out = Panicked (PanicErr err) \<and> stopped w (st_trace s') err)"
  using run
proof (cases rule: main_body_cases)
  case (login r1)
  from registryLogin_ok [OF login(1) c] login(2) show ?thesis by (rule fails_with_stage_ok)
next
  case (manifest token s1 r2)
  have "clean w (st_trace s1)" using registryLogin_ok [OF manifest(1) c] by (rule stage_ok_Ok)
  from fetchManifest_ok [OF manifest(2) this] manifest(3) show ?thesis by (rule fails_with_stage_ok)
next
  case (layers token s1 manifest s2 r3)
  have "clean w (st_trace s1)" using registryLogin_ok [OF layers(1) c] by (rule stage_ok_Ok)
  then have "clean w (st_trace s2)" using fetchManifest_ok [OF layers(2)] by (simp add: stage_ok_def)
  from extractLayers_ok [OF layers(3) this] layers(4) show ?thesis by (rule fails_with_stage_ok)
next
  case (prepare token s1 manifest s2 s3 err fs4)
  have "clean w (st_trace s1)" using registryLogin_ok [OF prepare(1) c] by (rule stage_ok_Ok)
  then have "clean w (st_trace s2)" using fetchManifest_ok [OF prepare(2)] by (simp add: stage_ok_def)
  then have "clean w (st_trace s3)" using extractLayers_ok [OF prepare(3)] by (simp add: stage_ok_def)
  with prepare(6) have "clean w (st_trace s')" by (simp add: clean_snoc)
  then show ?thesis ..
next
  case (run token s1 manifest s2 s3 fs4)
  have "clean w (st_trace s1)" using registryLogin_ok [OF run(1) c] by (rule stage_ok_Ok)
  then have "clean w (st_trace s2)" using fetchManifest_ok [OF run(2)] by (simp add: stage_ok_def)
  then have "clean w (st_trace s3)" using extractLayers_ok [OF run(3)] by (simp add: stage_ok_def)
  moreover from runCommand_trace [OF run(5)] obtain oc where
    "st_trace s' = (st_trace s3 @ [EvPrepare command root]) @ [EvRun command args root oc]"
    by auto
  ultimately have "clean w (st_trace s')" by (simp only: clean_snoc) simp
  then show ?thesis ..
qed

lemma main_body_events:
  assumes run: "main_body w img command args root s = (out, s')"
  shows "\<exists>login_evs token stage_evs run_evs.
           st_trace s' = st_trace s @ login_evs @ stage_evs @ run_evs \<and>
           (login_evs = [] \<or> (\<exists>req. login_evs = [EvHttp req])) \<and>
           (\<forall>e \<in> set stage_evs. stage_event token e) \<and>
           (run_evs = [] \<or> (\<exists>oc. run_evs = [EvRun command args root oc] \<and> out = translate oc)) \<and>
           (\<exists>r1. registryLogin w img s = (r1, s\<lparr>st_trace := st_trace s @ login_evs\<rparr>) \<and>
             (stage_evs = [] \<and> run_evs = [] \<or> r1 = Ok token))"
  using run
proof (cases rule: main_body_cases)
  case (login r1)
  from registryLogin_events [OF login(1)] obtain l where
    l: "st_fs s' = st_fs s" "st_trace s' = st_trace s @ l" "l = [] \<or> (\<exists>req. l = [EvHttp req])" by blast
  then have s1: "s' = s\<lparr>st_trace := st_trace s @ l\<rparr>" by simp
  show ?thesis
    apply (rule exI [of _ l], rule exI [of _ "[]"], rule exI [of _ "[]"], rule exI [of _ "[]"])
    using l login(1) s1 by auto
next
  case (manifest token s1 r2)
  from registryLogin_events [OF manifest(1)] obtain l where
    l: "st_fs s1 = st_fs s" "st_trace s1 = st_trace s @ l" "l = [] \<or> (\<exists>req. l = [EvHttp req])" by blast
  then have s1: "s1 = s\<lparr>st_trace := st_trace s @ l\<rparr>" by simp
  from fetchManifest_events [OF manifest(2)] obtain m where
    m: "st_trace s' = st_trace s1 @ m" "\<forall>e \<in> set m. stage_event token e" by blast
  show ?thesis
    apply (rule exI [of _ l], rule exI [of _ token], rule exI [of _ m], rule exI [of _ "[]"])
    using l m manifest(1) s1 by auto
next
  case (layers token s1 manifest s2 r3)
  from registryLogin_events [OF layers(1)] obtain l where
    l: "st_fs s1 = st_fs s" "st_trace s1 = st_trace s @ l" "l = [] \<or> (\<exists>req. l = [EvHttp req])" by blast
  then have s1: "s1 = s\<lparr>st_trace := st_trace s @ l\<rparr>" by simp
  from fetchManifest_events [OF layers(2)] obtain m where
    m: "st_trace s2 = st_trace s1 @ m" "\<forall>e \<in> set m. stage_event token e" by blast
  from extractLayers_events [OF layers(3)] obtain x where
    x: "st_trace s' = st_trace s2 @ x" "\<forall>e \<in> set x. stage_event token e" by blast
  show ?thesis
    apply (rule exI [of _ l], rule exI [of _ token], rule exI [of _ "m @ x"], rule exI [of _ "[]"])
    using l m x layers(1) s1 by auto
next
  case (prepare token s1 manifest s2 s3 err fs4)
  from registryLogin_events [OF prepare(1)] obtain l where
    l: "st_fs s1 = st_fs s" "st_trace s1 = st_trace s @ l" "l = [] \<or> (\<exists>req. l = [EvHttp req])" by blast
  then have s1: "s1 = s\<lparr>st_trace := st_trace s @ l\<rparr>" by simp
  from fetchManifest_events [OF prepare(2)] obtain m where
    m: "st_trace s2 = st_trace s1 @ m" "\<forall>e \<in> set m. stage_event token e" by blast
  from extractLayers_events [OF prepare(3)] obtain x where
    x: "st_trace s3 = st_trace s2 @ x" "\<forall>e \<in> set x. stage_event token e" by blast
  have p: "stage_event token (EvPrepare command root)" by (simp add: stage_event_def)
  show ?thesis
    apply (rule exI [of _ l], rule exI [of _ token],
        rule exI [of _ "m @ x @ [EvPrepare command root]"], rule exI [of _ "[]"])
    using l m x p prepare(1) prepare(6) s1 by auto
next
  case (run token s1 manifest s2 s3 fs4)
  from registryLogin_events [OF run(1)] obtain l where
    l: "st_fs s1 = st_fs s" "st_trace s1 = st_trace s @ l" "l = [] \<or> (\<exists>req. l = [EvHttp req])" by blast
  then have s1: "s1 = s\<lparr>st_trace := st_trace s @ l\<rparr>" by simp
  from fetchManifest_events [OF run(2)] obtain m where
    m: "st_trace s2 = st_trace s1 @ m" "\<forall>e \<in> set m. stage_event token e" by blast
  from extractLayers_events [OF run(3)] obtain x where
    x: "st_trace s3 = st_trace s2 @ x" "\<forall>e \<in> set x. stage_event token e" by blast
  from runCommand_trace [OF run(5)] obtain oc where
    oc: "st_trace s' = (st_trace s3 @ [EvPrepare command root]) @ [EvRun command args root oc]"
      "out = translate oc" by auto
  have p: "stage_event token (EvPrepare command root)" by (simp add: stage_event_def)
  show ?thesis
    apply (rule exI [of _ l], rule exI [of _ token],
        rule exI [of _ "m @ x @ [EvPrepare command root]"],
        rule exI [of _ "[EvRun command args root oc]"])
    using l m x p oc run(1) s1 by auto
qed

lemma exit_status_translate: "N \<le> 255 \<Longrightarrow> exit_status (translate (Exited N)) = N"
  by (simp add: translate_def cmd_Run_def exit_status_def)

lemma main_body_run_event:
  assumes run: "main_body w img command args root s = (out, s')" and "st_trace s = []"
    and ev: "EvRun c a r oc \<in> set (st_trace s')"
  shows "out = translate oc"
proof -
  from main_body_events [OF run] obtain login_evs token stage_evs run_evs where
    t: "st_trace s' = st_trace s @ login_evs @ stage_evs @ run_evs"
    and l: "login_evs = [] \<or> (\<exists>req. login_evs = [EvHttp req])"
    and m: "\<forall>e \<in> set stage_evs. stage_event token e"
    and x: "run_evs = [] \<or> (\<exists>oc. run_evs = [EvRun command args root oc] \<and> out = translate oc)"
    by blast
  from l have "EvRun c a r oc \<notin> set login_evs" by auto
  moreover from m have "EvRun c a r oc \<notin> set stage_evs" by (auto simp: stage_event_def)
  ultimately have "EvRun c a r oc \<in> set run_evs" using ev t assms(2) by simp
  with x show ?thesis by auto
qed

lemma clean_nth:
  "clean w tr \<Longrightarrow> i < length tr \<Longrightarrow> tr ! i = EvHttp req \<Longrightarrow> w_http w i req = Resp status b \<Longrightarrow> status = 200"
  by (auto simp: clean_def bad_response_def split: http_result.splits)

lemma stopped_then_removed:
  assumes st: "stopped w tr err" and i: "i < length (tr @ [EvRemoveAll dir])"
    and ev: "(tr @ [EvRemoveAll dir]) ! i = EvHttp req"
    and resp: "w_http w i req = Resp status b" and bad: "status \<noteq> 200"
  shows "(\<exists>msg. err = StatusError msg status) \<and> drop (Suc i) (tr @ [EvRemoveAll dir]) = [EvRemoveAll dir]"
proof -
  from st obtain tr0 req0 status0 b0 msg where
    tr: "tr = tr0 @ [EvHttp req0]" and c: "clean w tr0"
    and r0: "w_http w (length tr0) req0 = Resp status0 b0" and e: "err = StatusError msg status0"
    by (auto simp: stopped_def)
  have "i = length tr0"
  proof (rule ccontr)
    assume ne: "i \<noteq> length tr0"
    show False
    proof (cases "i < length tr0")
      case True
      with ev tr have "tr0 ! i = EvHttp req" by (simp add: nth_append)
      from clean_nth [OF c True this resp] bad show False by simp
    next
      case False
      with ne i tr have "i = Suc (length tr0)" by simp
      with ev tr show False by (simp add: nth_append)
    qed
  qed
  with ev tr r0 resp e show ?thesis by (simp add: nth_append)
qed

lemma fold_no_token:
  "list_all (\<lambda>(k, v). \<not> field_match k ''token'') kvs \<Longrightarrow>
   fold (\<lambda>(k, v) acc. if field_match k ''token'' then decode_string v acc else acc) kvs acc = acc"
  by (induction kvs arbitrary: acc) auto

lemma decodeToken_no_token:
  "list_all (\<lambda>(k, v). \<not> field_match k ''token'') kvs \<Longrightarrow>
   decodeToken (Some (JObject kvs)) = Inr \<lparr>Token = []\<rparr>"
  by (simp add: decodeToken_def fold_no_token)

lemma registryLogin_sent:
  assumes "registryLogin w img s = (r, s')" and "st_trace s' = st_trace s @ [EvHttp req]"
  shows "\<exists>name. index (strings_Split img (CHR '':'')) 0 = Inr name \<and>
     req = \<lparr>req_url = token_url name, req_headers = []\<rparr> \<and> w_url_ok w (token_url name)"
proof -
  obtain name where n: "index (strings_Split img (CHR '':'')) 0 = Inr name"
    using index_Split_0 by blast
  with assms show ?thesis
    by (auto simp: registryLogin_def http_do_def split: if_splits sum.splits http_result.splits)
qed

lemma registryLogin_fails_unsent:
  assumes "registryLogin w img s = (r, s')" and "st_trace s' = st_trace s"
  shows "\<exists>err. r = Err err"
proof -
  obtain name where n: "index (strings_Split img (CHR '':'')) 0 = Inr name"
    using index_Split_0 by blast
  with assms show ?thesis
    by (auto simp: registryLogin_def http_do_def split: if_splits sum.splits http_result.splits)
qed

lemma registryLogin_empty_token:
  assumes "index (strings_Split img (CHR '':'')) 0 = Inr name" and "w_url_ok w (token_url name)"
    and "w_http w (length (st_trace s)) \<lparr>req_url = token_url name, req_headers = []\<rparr> = Resp 200 b"
    and "decodeToken (as_json b) = Inr \<lparr>Token = []\<rparr>"
  shows "registryLogin w img s =
     (Ok [], s\<lparr>st_trace := st_trace s @ [EvHttp \<lparr>req_url = token_url name, req_headers = []\<rparr>]\<rparr>)"
  using assms by (simp add: registryLogin_def http_do_def)

lemma main_body_empty_token:
  assumes run: "main_body w img command args root \<lparr>st_fs = fs1, st_trace = []\<rparr> = (out, s')"
    and first: "st_trace s' = EvHttp req # rest"
    and resp: "w_http w 0 req = Resp 200 b"
    and body: "as_json b = Some (JObject kvs)"
    and lacks: "list_all (\<lambda>(k, v). \<not> field_match k ''token'') kvs"
  shows "(\<forall>fs. registryLogin w img \<lparr>st_fs = fs, st_trace = []\<rparr> =
            (Ok [], \<lparr>st_fs = fs, st_trace = [EvHttp req]\<rparr>)) \<and>
         (\<forall>r. EvHttp r \<in> set rest \<longrightarrow> map_of (req_headers r) ''Authorization'' = Some ''Bearer '')"
proof -
  let ?s = "\<lparr>st_fs = fs1, st_trace = []\<rparr>"
  from main_body_events [OF run] obtain login_evs token stage_evs run_evs r1 where
    t: "st_trace s' = st_trace ?s @ login_evs @ stage_evs @ run_evs"
    and l: "login_evs = [] \<or> (\<exists>req. login_evs = [EvHttp req])"
    and m: "\<forall>e \<in> set stage_evs. stage_event token e"
    and x: "run_evs = [] \<or> (\<exists>oc. run_evs = [EvRun command args root oc] \<and> out = translate oc)"
    and k: "registryLogin w img ?s = (r1, ?s\<lparr>st_trace := st_trace ?s @ login_evs\<rparr>)"
    and k': "stage_evs = [] \<and> run_evs = [] \<or> r1 = Ok token"
    by blast
  have le: "login_evs = [EvHttp req] \<and> rest = stage_evs @ run_evs"
  proof (cases "login_evs = []")
    case True
    with k have "registryLogin w img ?s = (r1, ?s)" by simp
    from registryLogin_fails_unsent [OF this] k' t first True show ?thesis by auto
  next
    case False
    with l t first show ?thesis by auto
  qed
  with k have k1: "registryLogin w img ?s = (r1, ?s\<lparr>st_trace := st_trace ?s @ [EvHttp req]\<rparr>)"
    by simp
  from registryLogin_sent [OF k1] obtain name where
    n: "index (strings_Split img (CHR '':'')) 0 = Inr name"
       "req = \<lparr>req_url = token_url name, req_headers = []\<rparr>" "w_url_ok w (token_url name)"
    by auto
  have d: "decodeToken (as_json b) = Inr \<lparr>Token = []\<rparr>"
    using body lacks by (simp add: decodeToken_no_token)
  have all: "registryLogin w img \<lparr>st_fs = fs, st_trace = []\<rparr> =
            (Ok [], \<lparr>st_fs = fs, st_trace = [EvHttp req]\<rparr>)" for fs
    using registryLogin_empty_token [OF n(1) n(3) _ d, of "\<lparr>st_fs = fs, st_trace = []\<rparr>"] resp n(2)
    by simp
  with k have "r1 = Ok []" by simp
  with k' have tok: "stage_evs = [] \<and> run_evs = [] \<or> token = []" by auto
  have "map_of (req_headers r) ''Authorization'' = Some ''Bearer ''" if "EvHttp r \<in> set rest" for r
  proof -
    from that le x have "EvHttp r \<in> set stage_evs" by auto
    with m tok show ?thesis by (auto simp: stage_event_def)
  qed
  with all show ?thesis by blast
qed

lemma MkdirAll_rev_files:
  "MkdirAll_rev um fs rp perm = Inr fs' \<Longrightarrow>
   (fs' q = Some (FileNode m c)) = (fs q = Some (FileNode m c))"
  by (induction rp arbitrary: fs')
     (auto split: option.splits node.splits sum.splits if_splits)

lemma copy_result:
  assumes "copy um cwd fs src dst = (None, fs')" and "resolve cwd src \<noteq> resolve cwd dst"
  shows "\<exists>m bytes. lookup fs (resolve cwd src) = Some (FileNode m bytes) \<and>
           lookup fs' (resolve cwd dst) = Some (FileNode (Perm m) bytes)"
  using assms
  by (auto simp: copy_def os_OpenFile_def os_Stat_def os_Chmod_def write_file_def
        write_from_start_def lookup_def
      split: option.splits node.splits if_splits sum.splits)

lemma fetchManifest_sends_tag:
  assumes "CHR '':'' \<notin> set name" and "CHR '':'' \<notin> set tag"
    and "w_url_ok w (manifest_url name tag)"
  shows "st_trace (snd (fetchManifest w token (name @ CHR '':'' # tag) s)) =
           st_trace s @ [EvHttp (manifest_request token name tag)]"
proof -
  have sp: "strings_Split (name @ CHR '':'' # tag) (CHR '':'') = [name, tag]"
    using assms(1,2) by (simp add: strings_Split_one_sep)
  obtain h s1 where h: "http_do w (manifest_request token name tag) s = (h, s1)"
    by (cases "http_do w (manifest_request token name tag) s")
  with assms(3) have t: "st_trace s1 = st_trace s @ [EvHttp (manifest_request token name tag)]"
    by (auto simp: http_do_def manifest_request_def)
  have "snd (fetchManifest w token (name @ CHR '':'' # tag) s) = s1"
    using sp h by (simp add: fetchManifest_def index_def split: sum.splits prod.splits)
  with t show ?thesis by simp
qed

lemma tag_with_default_tag:
  "CHR '':'' \<notin> set name \<Longrightarrow> CHR '':'' \<notin> set tag \<Longrightarrow>
   tag_with_default (name @ CHR '':'' # tag) = tag"
  by (simp add: tag_with_default_def strings_Split_one_sep)

lemma tag_with_default_latest:
  "CHR '':'' \<notin> set name \<Longrightarrow> tag_with_default name = ''latest''"
  by (simp add: tag_with_default_def strings_Split_no_sep)

lemma launch_failure_returns:
  assumes run: "main w fs0 = (out, s)"
    and ev: "EvRun command args root NotStarted \<in> set (st_trace s)"
  shows "out = Returned"
  using run
proof (cases rule: main_cases)
  case (early p)
  with ev show ?thesis by simp
next
  case (exit img cmd dir fs1 c)
  from main_body_run_event [OF exit(4) _ ev] exit(5) show ?thesis
    by (simp add: translate_def cmd_Run_def)
next
  case (deferred img cmd dir fs1 sb)
  from ev deferred(6) have "EvRun command args root NotStarted \<in> set (st_trace sb)" by simp
  from main_body_run_event [OF deferred(4) _ this] show ?thesis
    by (simp add: translate_def cmd_Run_def)
qed

lemma os_Exit_skips_removal:
  assumes run: "main w fs0 = (OsExit c, s)"
  shows "EvRemoveAll dir \<notin> set (st_trace s)"
  using run
proof (cases rule: main_cases)
  case (early p)
  then show ?thesis by simp
next
  case (exit img cmd d fs1 c')
  let ?s0 = "\<lparr>st_fs = fs1, st_trace = []\<rparr>"
  from main_body_events [OF exit(4)] obtain login_evs token stage_evs run_evs where
    t: "st_trace s = st_trace ?s0 @ login_evs @ stage_evs @ run_evs"
    and l: "login_evs = [] \<or> (\<exists>req. login_evs = [EvHttp req])"
    and m: "\<forall>e \<in> set stage_evs. stage_event token e"
    and x: "run_evs = [] \<or> (\<exists>oc. run_evs = [EvRun cmd (drop 4 (w_args w))
              (filepath_Join [''/tmp'', d]) oc] \<and> OsExit c' = translate oc)"
    by blast
  from l have "EvRemoveAll dir \<notin> set login_evs" by auto
  moreover from m have "EvRemoveAll dir \<notin> set stage_evs" by (auto simp: stage_event_def)
  moreover from x have "EvRemoveAll dir \<notin> set run_evs" by auto
  ultimately show ?thesis using t by simp
next
  case (deferred img cmd d fs1 sb)
  then show ?thesis by simp
qed

section \<open>The claims\<close>

text \<open>C1, at the reference \<^verbatim>\<open>busybox\<close>: \<^verbatim>\<open>fetchManifest\<close> of \<^verbatim>\<open>app/main.go\<close> reads
  \<^verbatim>\<open>imageSplit[1]\<close> of a one-element slice and panics before any request for a manifest
  is made, so the run ends in that panic and no tag \<^verbatim>\<open>latest\<close> is requested. The other
  variant of the function takes \<^verbatim>\<open>latest\<close> there. (For a reference \<^verbatim>\<open>name:tag\<close> the
  request is for \<^verbatim>\<open>tag\<close>: lemma \<open>fetchManifest_sends_tag\<close>.)\<close>

theorem fetchManifest_panics_without_tag:
  "fetchManifest w token ''busybox'' s = (Panic IndexOutOfRange, s) \<and>
   fst (main (demo_world ''busybox'' good_token (Exited 0)) host_fs) = Panicked IndexOutOfRange \<and>
   tag_with_default ''busybox'' = ''latest''"
proof (intro conjI)
  show "fetchManifest w token ''busybox'' s = (Panic IndexOutOfRange, s)"
    by (simp add: fetchManifest_def index_def)
  show "fst (main (demo_world ''busybox'' good_token (Exited 0)) host_fs) = Panicked IndexOutOfRange"
    by code_simp
  show "tag_with_default ''busybox'' = ''latest''"
    by (simp add: tag_with_default_def)
qed

text \<open>C2, at an image whose second layer holds \<^verbatim>\<open>etc/motd\<close> again, with the bytes
  \<^verbatim>\<open>hi\<close> and mode 0644 (\<open>0x1A4\<close>) after the first layer's \<^verbatim>\<open>hello\<close> and mode 0755
  (\<open>0x1ED\<close>): extraction succeeds, and the file then holds \<^verbatim>\<open>hillo\<close> with mode 0755.
  The file is opened without \<^verbatim>\<open>O_TRUNC\<close>, and the mode of \<^verbatim>\<open>OpenFile\<close> only applies
  to a file that the call creates.\<close>

theorem later_layer_not_truncated:
  "fst (extractLayers (demo_world ''busybox:latest'' good_token (Exited 0)) ''T'' ''busybox:latest''
         two_layers ''/r'' \<lparr>st_fs = host_fs, st_trace = []\<rparr>) = Ok () \<and>
   st_fs (snd (extractLayers (demo_world ''busybox:latest'' good_token (Exited 0)) ''T'' ''busybox:latest''
         two_layers ''/r'' \<lparr>st_fs = host_fs, st_trace = []\<rparr>)) [''r'', ''etc'', ''motd'']
     = Some (FileNode 0x1ED ''hillo'') \<and>
   map (\<lambda>e. (Name e, Mode e, Data e)) (filter (\<lambda>e. Typeflag e = TypeReg) layer2)
     = [(''etc/motd'', 0x1A4, ''hi'')]"
  by code_simp

text \<open>C3, at a run whose child exits with 7: \<^verbatim>\<open>os.Exit\<close> ends the process, the
  deferred removal never runs, and both the temporary directory and the root that the
  layers were extracted into are still there (no run that ends in \<^verbatim>\<open>os.Exit\<close> removes
  anything: lemma \<open>os_Exit_skips_removal\<close>). At a run whose child exits with 0 the
  removal runs once, after the command, on \<^verbatim>\<open>/tmp/docker123\<close>; the root of the
  extraction and of the child, \<^verbatim>\<open>/tmp/tmp/docker123\<close>, is still there.\<close>

theorem temp_root_survives_run:
  "fst (main (demo_world ''busybox:latest'' good_token (Exited 7)) host_fs) = OsExit 7 \<and>
   st_fs (snd (main (demo_world ''busybox:latest'' good_token (Exited 7)) host_fs)) [''tmp'', ''docker123'']
     = Some (DirNode 0x1C0) \<and>
   st_fs (snd (main (demo_world ''busybox:latest'' good_token (Exited 7)) host_fs)) [''tmp'', ''tmp'', ''docker123'']
     = Some (DirNode 0x1ED) \<and>
   list_all (\<lambda>e. case e of EvRemoveAll d \<Rightarrow> False | _ \<Rightarrow> True)
     (st_trace (snd (main (demo_world ''busybox:latest'' good_token (Exited 7)) host_fs))) \<and>
   fst (main (demo_world ''busybox:latest'' good_token (Exited 0)) host_fs) = Returned \<and>
   last (st_trace (snd (main (demo_world ''busybox:latest'' good_token (Exited 0)) host_fs)))
     = EvRemoveAll ''/tmp/docker123'' \<and>
   last (butlast (st_trace (snd (main (demo_world ''busybox:latest'' good_token (Exited 0)) host_fs))))
     = EvRun ''/bin/echo'' [''hello''] ''/tmp/tmp/docker123'' (Exited 0) \<and>
   st_fs (snd (main (demo_world ''busybox:latest'' good_token (Exited 0)) host_fs)) [''tmp'', ''tmp'', ''docker123'']
     = Some (DirNode 0x1ED)"
  by code_simp

text \<open>C4: whenever the child of a run ends normally with a code \<open>N\<close> of at most
  255, the exit status of the tool is \<open>N\<close>.\<close>

theorem child_exit_code_propagated:
  assumes run: "main w fs0 = (out, s)"
    and ev: "EvRun command args root (Exited N) \<in> set (st_trace s)"
    and N: "N \<le> 255"
  shows "exit_status out = N"
  using run
proof (cases rule: main_cases)
  case (early p)
  with ev show ?thesis by simp
next
  case (exit img cmd dir fs1 c)
  from main_body_run_event [OF exit(4) _ ev] exit(5) have "out = translate (Exited N)" by simp
  with N show ?thesis by (simp add: exit_status_translate)
next
  case (deferred img cmd dir fs1 sb)
  from ev deferred(6) have "EvRun command args root (Exited N) \<in> set (st_trace sb)" by simp
  from main_body_run_event [OF deferred(4) _ this] have "out = translate (Exited N)" by simp
  with N show ?thesis by (simp add: exit_status_translate)
qed

text \<open>C4 at the run whose child exits with 7.\<close>

theorem child_exit_code_propagated_witness:
  "EvRun ''/bin/echo'' [''hello''] ''/tmp/tmp/docker123'' (Exited 7)
     \<in> set (st_trace (snd (main (demo_world ''busybox:latest'' good_token (Exited 7)) host_fs))) \<and>
   (7::nat) \<le> 255 \<and>
   exit_status (fst (main (demo_world ''busybox:latest'' good_token (Exited 7)) host_fs)) = 7"
proof -
  let ?m = "main (demo_world ''busybox:latest'' good_token (Exited 7)) host_fs"
  have run: "?m = (fst ?m, snd ?m)" by simp
  have ev: "EvRun ''/bin/echo'' [''hello''] ''/tmp/tmp/docker123'' (Exited 7) \<in> set (st_trace (snd ?m))"
    by code_simp
  have N: "(7::nat) \<le> 255" by simp
  from child_exit_code_propagated [OF run ev N] ev N show ?thesis by blast
qed

text \<open>A read from the child's input source never fails and never reports end of input,
  whatever the buffer: it reports the whole buffer as read and leaves the buffer as it
  was, so that a copy loop over it delivers \<open>fuel * length buf\<close> bytes in \<open>fuel\<close>
  reads and is still running.\<close>

lemma nullReader_never_eof:
  "nullReader_Read p = (p, length p, None) \<and>
   stdin_copy nullReader_Read buf fuel written = (None, written + fuel * length buf)"
proof
  show "nullReader_Read p = (p, length p, None)"
    by (simp add: nullReader_Read_def)
  show "stdin_copy nullReader_Read buf fuel written = (None, written + fuel * length buf)"
    by (induction fuel arbitrary: written) (simp_all add: nullReader_Read_def)
qed

text \<open>C5, at a child that reads its input with a buffer of four bytes: the read behind it
  returns four bytes and no error, where a read at end of input returns no byte and
  \<^verbatim>\<open>io.EOF\<close>; after three reads the copy into the child's input has delivered twelve
  bytes and has not ended. The reader named \<^verbatim>\<open>nullReader\<close> is no empty source.\<close>

theorem nullReader_read_is_not_eof:
  "nullReader_Read [0, 0, 0, 0] = ([0, 0, 0, 0], 4, None) \<and>
   nullReader_Read [0, 0, 0, 0] \<noteq> ([0, 0, 0, 0], 0, Some EOF) \<and>
   stdin_copy nullReader_Read [0, 0, 0, 0] 3 0 = (None, 12)"
  by (simp add: nullReader_Read_def numeral_3_eq_3)

text \<open>C6, at a run whose command cannot be started: \<^verbatim>\<open>cmd.Run\<close> returns an error
  that is not an exit-status error, \<^verbatim>\<open>main\<close> returns, and the tool exits with status 0
  and without a diagnostic (as in every run whose command cannot be started: lemma
  \<open>launch_failure_returns\<close>).\<close>

theorem launch_failure_exits_zero:
  "fst (main (demo_world ''busybox:latest'' good_token NotStarted) host_fs) = Returned \<and>
   exit_status (fst (main (demo_world ''busybox:latest'' good_token NotStarted) host_fs)) = 0 \<and>
   \<not> prints_diagnostic (fst (main (demo_world ''busybox:latest'' good_token NotStarted) host_fs)) \<and>
   cmd_Run NotStarted = Some StartError"
  by code_simp

text \<open>C7: when a request of a run (to the token, the manifest or the blob endpoint) is
  answered with a status other than 200, the stage returns an error made from that
  status, \<^verbatim>\<open>main\<close> panics with it, and the only event after the request is the
  deferred removal: no later request, no tar entry, no Root Preparer, no command.\<close>

theorem non_200_aborts_run:
  assumes run: "main w fs0 = (out, s)"
    and i: "i < length (st_trace s)" and ev: "st_trace s ! i = EvHttp req"
    and resp: "w_http w i req = Resp status b" and bad: "status \<noteq> 200"
  shows "(\<exists>msg. out = Panicked (PanicErr (StatusError msg status))) \<and>
         (\<exists>dir. drop (Suc i) (st_trace s) = [EvRemoveAll dir])"
  using run
proof (cases rule: main_cases)
  case (early p)
  with i show ?thesis by simp
next
  case (exit img cmd dir fs1 c)
  from main_body_ok [OF exit(4)] exit(5) have "clean w (st_trace s)"
    by (auto simp: clean_Nil)
  from clean_nth [OF this i ev resp] bad show ?thesis by simp
next
  case (deferred img cmd dir fs1 sb)
  from main_body_ok [OF deferred(4)]
  consider "clean w (st_trace sb)"
    | err where "out = Panicked (PanicErr err)" "stopped w (st_trace sb) err"
    by (auto simp: clean_Nil)
  then show ?thesis
  proof cases
    case 1
    then have "clean w (st_trace s)" using deferred(6) by (simp add: clean_snoc)
    from clean_nth [OF this i ev resp] bad show ?thesis by simp
  next
    case 2
    from stopped_then_removed [OF 2(2) _ _ resp bad, of dir] i ev deferred(6) 2(1)
    show ?thesis by auto
  qed
qed

text \<open>C7 at the reference \<^verbatim>\<open>busybox:nosuch\<close>, whose manifest request is answered
  with 404.\<close>

theorem non_200_aborts_run_witness:
  "st_trace (snd (main (demo_world ''busybox:nosuch'' good_token (Exited 0)) host_fs)) ! 1
     = EvHttp (manifest_request ''T'' ''busybox'' ''nosuch'') \<and>
   w_http (demo_world ''busybox:nosuch'' good_token (Exited 0)) 1
       (manifest_request ''T'' ''busybox'' ''nosuch'')
     = Resp 404 \<lparr>as_json = None, as_targz = None\<rparr> \<and>
   (\<exists>msg. fst (main (demo_world ''busybox:nosuch'' good_token (Exited 0)) host_fs)
      = Panicked (PanicErr (StatusError msg 404))) \<and>
   (\<exists>dir. drop 2 (st_trace (snd (main (demo_world ''busybox:nosuch'' good_token (Exited 0)) host_fs)))
      = [EvRemoveAll dir])"
proof -
  let ?w = "demo_world ''busybox:nosuch'' good_token (Exited 0)"
  let ?m = "main ?w host_fs"
  let ?req = "manifest_request ''T'' ''busybox'' ''nosuch''"
  have run: "?m = (fst ?m, snd ?m)" by simp
  have i: "1 < length (st_trace (snd ?m))" by code_simp
  have ev: "st_trace (snd ?m) ! 1 = EvHttp ?req" by code_simp
  have resp: "w_http ?w 1 ?req = Resp 404 \<lparr>as_json = None, as_targz = None\<rparr>" by code_simp
  have bad: "(404::nat) \<noteq> 200" by simp
  from non_200_aborts_run [OF run i ev resp bad]
  have "(\<exists>msg. fst ?m = Panicked (PanicErr (StatusError msg 404))) \<and>
        (\<exists>dir. drop 2 (st_trace (snd ?m)) = [EvRemoveAll dir])"
    by (simp add: numeral_2_eq_2)
  with ev resp show ?thesis by blast
qed

text \<open>C8, as the code has it: whenever the Root Preparer succeeds, and the command's path
  in the root is not the host binary's own path, the command's path in the root holds the
  bytes and the permission bits of the host binary, whatever was there before.\<close>

theorem rootPreparer_always_copies:
  assumes "rootPreparer w command chrootRoot fs = (None, fs')"
    and "resolve (w_cwd w) command \<noteq> resolve (w_cwd w) (chrootCommand chrootRoot command)"
  shows "\<exists>m bytes. lookup fs (resolve (w_cwd w) command) = Some (FileNode m bytes) \<and>
           lookup fs' (resolve (w_cwd w) (chrootCommand chrootRoot command)) =
             Some (FileNode (Perm m) bytes)"
proof -
  from assms(1) obtain fs1 where
    mk: "os_MkdirAll (w_umask w) fs
           (resolve (w_cwd w) (filepath_Join [chrootRoot, filepath_Dir command])) 0x1FF = Inr fs1"
    and cp: "copy (w_umask w) (w_cwd w) fs1 command (chrootCommand chrootRoot command) = (None, fs')"
    by (auto simp: rootPreparer_def split: sum.splits)
  from copy_result [OF cp assms(2)] obtain m bytes where
    r: "lookup fs1 (resolve (w_cwd w) command) = Some (FileNode m bytes)"
       "lookup fs' (resolve (w_cwd w) (chrootCommand chrootRoot command)) = Some (FileNode (Perm m) bytes)"
    by blast
  from r(1) mk have "lookup fs (resolve (w_cwd w) command) = Some (FileNode m bytes)"
    by (auto simp: lookup_def os_MkdirAll_def MkdirAll_rev_files split: if_splits)
  with r(2) show ?thesis by blast
qed

text \<open>C8 as amended, for \<^verbatim>\<open>/bin/echo\<close> and the root \<^verbatim>\<open>/r\<close>.\<close>

theorem rootPreparer_always_copies_witness:
  "resolve [] ''/bin/echo'' \<noteq> resolve [] (chrootCommand ''/r'' ''/bin/echo'') \<and>
   fst (rootPreparer (demo_world ''busybox:latest'' good_token (Exited 0)) ''/bin/echo'' ''/r'' host_fs)
     = None \<and>
   lookup host_fs (resolve [] ''/bin/echo'') = Some (FileNode 0x1ED ''host echo'') \<and>
   lookup (snd (rootPreparer (demo_world ''busybox:latest'' good_token (Exited 0)) ''/bin/echo'' ''/r'' host_fs))
       (resolve [] (chrootCommand ''/r'' ''/bin/echo'')) = Some (FileNode (Perm 0x1ED) ''host echo'')"
proof -
  let ?w = "demo_world ''busybox:latest'' good_token (Exited 0)"
  let ?r = "rootPreparer ?w ''/bin/echo'' ''/r'' host_fs"
  have cwd: "w_cwd ?w = []" by (simp add: demo_world_def)
  have ne: "resolve [] ''/bin/echo'' \<noteq> resolve [] (chrootCommand ''/r'' ''/bin/echo'')" by code_simp
  have ok: "fst ?r = None" by code_simp
  then have r: "?r = (None, snd ?r)" by (cases ?r) simp
  have src: "lookup host_fs (resolve [] ''/bin/echo'') = Some (FileNode 0x1ED ''host echo'')"
    by code_simp
  from rootPreparer_always_copies [OF r] ne cwd src ok show ?thesis by auto
qed

text \<open>C8, as the specification states it, fails: the first layer provides
  \<^verbatim>\<open>bin/echo\<close>, and after the Root Preparer the path holds the host's bytes.\<close>

theorem rootPreparer_overwrites_counterexample:
  "st_fs (snd (extractLayers (demo_world ''busybox:latest'' good_token (Exited 0)) ''T'' ''busybox:latest''
         two_layers ''/r'' \<lparr>st_fs = host_fs, st_trace = []\<rparr>)) [''r'', ''bin'', ''echo'']
     = Some (FileNode 0x1ED ''layer echo'') \<and>
   (case rootPreparer (demo_world ''busybox:latest'' good_token (Exited 0)) ''/bin/echo'' ''/r''
           (st_fs (snd (extractLayers (demo_world ''busybox:latest'' good_token (Exited 0)) ''T''
              ''busybox:latest'' two_layers ''/r'' \<lparr>st_fs = host_fs, st_trace = []\<rparr>))) of
      (Some err, fs') \<Rightarrow> None
    | (None, fs') \<Rightarrow> fs' [''r'', ''bin'', ''echo'']) = Some (FileNode 0x1ED ''host echo'')"
  by code_simp

text \<open>C9: a directory entry whose target exists is no error; the entry changes nothing
  in the file system.\<close>

theorem existing_directory_is_no_error:
  assumes "Typeflag header = TypeDir"
    and "lookup (st_fs s) (resolve (w_cwd w) (filepath_Join [rootDir, Name header])) = Some n"
  shows "extractEntry w rootDir header s =
           (Ok (), s\<lparr>st_trace := st_trace s @ [EvEntry (filepath_Join [rootDir, Name header])]\<rparr>)"
  using assms by (simp add: extractEntry_def os_Stat_def Let_def)

text \<open>C9 at the entry \<^verbatim>\<open>etc/\<close> of the second layer, after the first layer has been
  extracted.\<close>

theorem existing_directory_is_no_error_witness:
  "Typeflag (hd layer2) = TypeDir \<and>
   lookup (st_fs (snd (extractEntries (demo_world ''busybox:latest'' good_token (Exited 0)) ''/r'' layer1 True
             \<lparr>st_fs = host_fs, st_trace = []\<rparr>)))
       (resolve [] (filepath_Join [''/r'', Name (hd layer2)])) = Some (DirNode 0x1ED) \<and>
   fst (extractEntry (demo_world ''busybox:latest'' good_token (Exited 0)) ''/r'' (hd layer2)
         (snd (extractEntries (demo_world ''busybox:latest'' good_token (Exited 0)) ''/r'' layer1 True
             \<lparr>st_fs = host_fs, st_trace = []\<rparr>))) = Ok ()"
proof -
  let ?w = "demo_world ''busybox:latest'' good_token (Exited 0)"
  let ?s = "snd (extractEntries ?w ''/r'' layer1 True \<lparr>st_fs = host_fs, st_trace = []\<rparr>)"
  have t: "Typeflag (hd layer2) = TypeDir" by code_simp
  have cwd: "w_cwd ?w = []" by (simp add: demo_world_def)
  have l: "lookup (st_fs ?s) (resolve [] (filepath_Join [''/r'', Name (hd layer2)])) = Some (DirNode 0x1ED)"
    by code_simp
  from existing_directory_is_no_error [of "hd layer2" ?s ?w "''/r''", OF t] l cwd t
  show ?thesis by simp
qed

text \<open>C10: when the token request of a run is answered with status 200 and a JSON
  object without a member for the field \<^verbatim>\<open>token\<close>, \<^verbatim>\<open>registryLogin\<close> returns the
  empty string and no error, and every later request of the run carries the header
  \<^verbatim>\<open>Authorization: Bearer \<close> with nothing after the blank.\<close>

theorem empty_token_is_used:
  assumes run: "main w fs0 = (out, s)"
    and first: "st_trace s = EvHttp req # rest"
    and resp: "w_http w 0 req = Resp 200 b"
    and body: "as_json b = Some (JObject kvs)"
    and lacks: "list_all (\<lambda>(k, v). \<not> field_match k ''token'') kvs"
  shows "\<exists>img. index (w_args w) 2 = Inr img \<and>
         (\<forall>fs. registryLogin w img \<lparr>st_fs = fs, st_trace = []\<rparr> =
            (Ok [], \<lparr>st_fs = fs, st_trace = [EvHttp req]\<rparr>)) \<and>
         (\<forall>r. EvHttp r \<in> set rest \<longrightarrow> map_of (req_headers r) ''Authorization'' = Some ''Bearer '')"
  using run
proof (cases rule: main_cases)
  case (early p)
  with first show ?thesis by simp
next
  case (exit img cmd dir fs1 c)
  from main_body_empty_token [OF exit(4) first resp body lacks] exit(1) show ?thesis by blast
next
  case (deferred img cmd dir fs1 sb)
  from first deferred(6) have "st_trace sb @ [EvRemoveAll dir] = EvHttp req # rest" by simp
  then obtain rest' where r: "st_trace sb = EvHttp req # rest'" "rest = rest' @ [EvRemoveAll dir]"
    by (cases "st_trace sb") auto
  from main_body_empty_token [OF deferred(4) r(1) resp body lacks] r(2) deferred(1)
  show ?thesis by auto
qed

text \<open>C10 at the token response \<^verbatim>\<open>{}\<close>.\<close>

theorem empty_token_is_used_witness:
  "st_trace (snd (main (demo_world ''busybox:latest'' (JObject []) (Exited 0)) host_fs))
     = EvHttp \<lparr>req_url = token_url ''busybox'', req_headers = []\<rparr>
       # tl (st_trace (snd (main (demo_world ''busybox:latest'' (JObject []) (Exited 0)) host_fs))) \<and>
   w_http (demo_world ''busybox:latest'' (JObject []) (Exited 0)) 0
       \<lparr>req_url = token_url ''busybox'', req_headers = []\<rparr> = Resp 200 (token_body (JObject [])) \<and>
   fst (registryLogin (demo_world ''busybox:latest'' (JObject []) (Exited 0)) ''busybox:latest''
         \<lparr>st_fs = host_fs, st_trace = []\<rparr>) = Ok [] \<and>
   EvHttp (manifest_request [] ''busybox'' ''latest'')
     \<in> set (tl (st_trace (snd (main (demo_world ''busybox:latest'' (JObject []) (Exited 0)) host_fs)))) \<and>
   list_all (\<lambda>e. case e of
                  EvHttp r \<Rightarrow> map_of (req_headers r) ''Authorization'' = Some ''Bearer ''
                | _ \<Rightarrow> True)
     (tl (st_trace (snd (main (demo_world ''busybox:latest'' (JObject []) (Exited 0)) host_fs))))"
proof -
  let ?w = "demo_world ''busybox:latest'' (JObject []) (Exited 0)"
  let ?m = "main ?w host_fs"
  let ?req = "\<lparr>req_url = token_url ''busybox'', req_headers = []\<rparr>"
  have run: "?m = (fst ?m, snd ?m)" by simp
  have first: "st_trace (snd ?m) = EvHttp ?req # tl (st_trace (snd ?m))" by code_simp
  have resp: "w_http ?w 0 ?req = Resp 200 (token_body (JObject []))" by code_simp
  have body: "as_json (token_body (JObject [])) = Some (JObject [])" by (simp add: token_body_def)
  have lacks: "list_all (\<lambda>(k, v). \<not> field_match k ''token'') []" by simp
  have img: "index (w_args ?w) 2 = Inr ''busybox:latest''" by code_simp
  have sent: "EvHttp (manifest_request [] ''busybox'' ''latest'') \<in> set (tl (st_trace (snd ?m)))"
    by code_simp
  from empty_token_is_used [OF run first resp body lacks] img
  have login: "fst (registryLogin ?w ''busybox:latest'' \<lparr>st_fs = host_fs, st_trace = []\<rparr>) = Ok []"
    and auth: "\<forall>r. EvHttp r \<in> set (tl (st_trace (snd ?m))) \<longrightarrow>
           map_of (req_headers r) ''Authorization'' = Some ''Bearer ''"
    by auto
  have "list_all (\<lambda>e. case e of
                  EvHttp r \<Rightarrow> map_of (req_headers r) ''Authorization'' = Some ''Bearer ''
                | _ \<Rightarrow> True) (tl (st_trace (snd ?m)))"
    unfolding list_all_iff
  proof
    fix e assume "e \<in> set (tl (st_trace (snd ?m)))"
    with auth show "case e of
                  EvHttp r \<Rightarrow> map_of (req_headers r) ''Authorization'' = Some ''Bearer ''
                | _ \<Rightarrow> True"
      by (cases e) simp_all
  qed
  with login first resp sent show ?thesis by blast
qed

end
